theory Spec2Isabelle
  imports Main
begin

section \<open>Python strings and floats, as far as the field normalizer uses them\<close>

text \<open>
  A Python \<open>str\<close> is modelled as a \<open>string\<close>; a character stands for the code point of the
  same number (below 256). \<open>\d\<close> of the \<open>re\<close> module matches the decimal digits, \<open>\s\<close> and
  \<open>str.strip\<close> the white space of \<open>str.isspace\<close>.
\<close>

definition is_digit :: "char \<Rightarrow> bool" where
  "is_digit c = (let n = (of_char c :: int) in 48 \<le> n \<and> n \<le> 57)"

definition is_space :: "char \<Rightarrow> bool" where
  "is_space c = (let n = (of_char c :: int) in
     (9 \<le> n \<and> n \<le> 13) \<or> (28 \<le> n \<and> n \<le> 32) \<or> n = 133 \<or> n = 160)"

definition digit_val :: "char \<Rightarrow> int" where
  "digit_val c = of_char c - 48"

definition decimal_value :: "string \<Rightarrow> int" where
  "decimal_value ds = foldl (\<lambda>a c. 10 * a + digit_val c) 0 ds"

definition strip :: "string \<Rightarrow> string" where
  "strip s = rev (dropWhile is_space (rev (dropWhile is_space s)))"

definition startswith :: "string \<Rightarrow> string \<Rightarrow> bool" where
  "startswith s p = (take (length p) s = p)"

text \<open>\<open>str.upper\<close> on the characters that reach it here: ASCII letters change, digits,
  punctuation and white space do not.\<close>

definition upper_char :: "char \<Rightarrow> char" where
  "upper_char c = (let n = (of_char c :: int) in
     if 97 \<le> n \<and> n \<le> 122 then char_of (n - 32) else c)"

definition upper :: "string \<Rightarrow> string" where
  "upper s = map upper_char s"

text \<open>\<open>s.replace(c, '')\<close> for a one-character \<open>c\<close>.\<close>

definition remove_char :: "char \<Rightarrow> string \<Rightarrow> string" where
  "remove_char c s = filter (\<lambda>x. x \<noteq> c) s"

text \<open>
  A Python \<open>float\<close> is an IEEE 754 binary64 number. Only values that are not negative
  occur, with integer mantissa and exponent: \<open>Finite m e\<close> is \<open>m * 2 ^ e\<close>, \<open>Infinity\<close> is \<open>inf\<close>.
\<close>

datatype pyfloat = Finite int int | Infinity

datatype pyexn =
    OverflowError
  | AttributeError
  | TimeoutException
  | NoSuchElementException
  | StaleElementReferenceException
  | WebDriverException
  | OtherException

function bit_length :: "int \<Rightarrow> int" where
  "bit_length n = (if n \<le> 0 then 0 else 1 + bit_length (n div 2))"
  by pat_completeness auto
termination
  by (relation "measure nat") auto

declare bit_length.simps [simp del]

text \<open>\<open>floor_log2 p q\<close> is the \<open>e\<close> with \<open>2 ^ e \<le> p / q < 2 ^ (e + 1)\<close>, for positive
  \<open>p\<close> and \<open>q\<close>.\<close>

definition floor_log2 :: "int \<Rightarrow> int \<Rightarrow> int" where
  "floor_log2 p q =
     (let e0 = bit_length p - bit_length q in
      if q * 2 ^ nat e0 \<le> p * 2 ^ nat (- e0) then e0 else e0 - 1)"

text \<open>Rounding the rational \<open>p / q\<close> to the nearest binary64 number, ties to the even
  mantissa: 53 bits of mantissa, the least exponent of a unit in the last place is
  \<open>-1074\<close> (subnormal numbers), and a rounded value of \<open>2 ^ 1024\<close> or more is \<open>inf\<close>.\<close>

definition round_to_double :: "int \<Rightarrow> int \<Rightarrow> pyfloat" where
  "round_to_double p q =
     (if p = 0 then Finite 0 0
      else
        let e = max (floor_log2 p q - 52) (- 1074);
            n = p * 2 ^ nat (- e);
            d = q * 2 ^ nat e;
            m = n div d;
            r = n mod d;
            m' = (if 2 * r < d then m else if d < 2 * r then m + 1
                  else if even m then m else m + 1)
        in if 0 \<le> e \<and> 2 ^ 1024 \<le> m' * 2 ^ nat e then Infinity else Finite m' e)"

text \<open>\<open>float(s)\<close> for a string of digits, dots, white space and letters, which is all
  that the pattern of \<open>extract_count_from_string\<close> lets through: white space at both
  ends is skipped, and the rest is \<open>digits [. digits]\<close> or \<open>. digits\<close>, converted with
  correct rounding. \<open>None\<close> is \<open>ValueError\<close>. The white space that \<open>float\<close> skips is
  that of \<open>str.isspace\<close> without the separators with the codes 28 to 31.\<close>

definition is_float_space :: "char \<Rightarrow> bool" where
  "is_float_space c = (let n = (of_char c :: int) in
     (9 \<le> n \<and> n \<le> 13) \<or> n = 32 \<or> n = 133 \<or> n = 160)"

definition float_of_num_str :: "string \<Rightarrow> pyfloat option" where
  "float_of_num_str s =
     (let t = rev (dropWhile is_float_space (rev (dropWhile is_float_space s)));
          ip = takeWhile is_digit t in
      case dropWhile is_digit t of
        [] \<Rightarrow> if ip = [] then None else Some (round_to_double (decimal_value ip) 1)
      | c # fp \<Rightarrow>
          if c = CHR ''.'' \<and> list_all is_digit fp \<and> (ip \<noteq> [] \<or> fp \<noteq> [])
          then Some (round_to_double (decimal_value (ip @ fp)) (10 ^ length fp))
          else None)"

text \<open>\<open>x * c\<close> for a float \<open>x\<close> and an \<open>int\<close> constant \<open>c\<close> below \<open>2 ^ 53\<close> (it converts
  to a float exactly): the exact product, rounded.\<close>

definition float_mul :: "pyfloat \<Rightarrow> int \<Rightarrow> pyfloat" where
  "float_mul x c =
     (case x of
        Infinity \<Rightarrow> Infinity
      | Finite m e \<Rightarrow> round_to_double (m * c * 2 ^ nat e) (2 ^ nat (- e)))"

text \<open>\<open>int(x)\<close> truncates; on \<open>inf\<close> it raises \<open>OverflowError\<close>.\<close>

definition int_of_float :: "pyfloat \<Rightarrow> pyexn + int" where
  "int_of_float x =
     (case x of
        Infinity \<Rightarrow> Inl OverflowError
      | Finite m e \<Rightarrow> Inr ((m * 2 ^ nat e) div 2 ^ nat (- e)))"

section \<open>Field normalizer: \<open>extract_count_from_string\<close>\<close>

definition is_count_char :: "char \<Rightarrow> bool" where
  "is_count_char c = (is_digit c \<or> c = CHR '','' \<or> c = CHR ''.'')"

text \<open>\<open>re.search(r'(\d[\d,.]*\s*[KMBTkmb]?)', text)\<close>: the match starts at the first
  digit, each repetition is greedy and nothing after it can fail, so the group is the
  digit, the longest run of digits, commas and dots, the longest run of white space and
  one suffix letter when it is there. \<open>None\<close> when the text has no digit.\<close>

definition count_match :: "string \<Rightarrow> string option" where
  "count_match text =
     (case dropWhile (\<lambda>c. \<not> is_digit c) text of
        [] \<Rightarrow> None
      | d # rest \<Rightarrow>
          let body = takeWhile is_count_char rest;
              r1 = dropWhile is_count_char rest;
              ws = takeWhile is_space r1;
              suf = (case dropWhile is_space r1 of
                       [] \<Rightarrow> []
                     | c # _ \<Rightarrow> if c \<in> set ''KMBTkmb'' then [c] else [])
          in Some (d # body @ ws @ suf))"

text \<open>\<open>int(float(s) * c)\<close> inside the \<open>try\<close>: \<open>ValueError\<close> is caught and the function
  returns 0, \<open>OverflowError\<close> is not among the caught exceptions.\<close>

definition scaled_count :: "string \<Rightarrow> int \<Rightarrow> pyexn + int" where
  "scaled_count s c =
     (case float_of_num_str s of
        None \<Rightarrow> Inr 0
      | Some x \<Rightarrow> int_of_float (float_mul x c))"

definition extract_count_from_string :: "string option \<Rightarrow> pyexn + int" where
  "extract_count_from_string text_to_parse =
     (case text_to_parse of
        None \<Rightarrow> Inr 0
      | Some text \<Rightarrow>
          if text = [] then Inr 0
          else
            (case count_match text of
               None \<Rightarrow> Inr 0
             | Some g \<Rightarrow>
                 let num_str = strip (remove_char (CHR '','') g) in
                 if CHR ''K'' \<in> set (upper num_str)
                 then scaled_count (remove_char (CHR ''K'') num_str) 1000
                 else if CHR ''M'' \<in> set (upper num_str)
                 then scaled_count (remove_char (CHR ''M'') num_str) 1000000
                 else if CHR ''B'' \<in> set (upper num_str)
                 then scaled_count (remove_char (CHR ''B'') num_str) 1000000000
                 else if CHR ''T'' \<in> set (upper num_str)
                 then scaled_count (remove_char (CHR ''T'') num_str) 1000000000000
                 else
                   (case float_of_num_str num_str of
                      None \<Rightarrow> Inr 0
                    | Some x \<Rightarrow> int_of_float x)))"

section \<open>Fallback resolver: \<open>any_of_conditions\<close>\<close>

text \<open>
  A condition is called with the driver and returns a value or raises. \<open>Located r\<close> is a
  truthy result (an element), \<open>Falsy\<close> a result that \<open>if result:\<close> rejects, \<open>Raised\<close> an
  exception of class \<open>Exception\<close>, which the loop catches. The call returns the result
  paired with the indices of the conditions it invoked, in the order of invocation;
  \<open>None\<close> is the \<open>False\<close> returned after the loop.
\<close>

datatype 'e cond_result = Located 'e | Falsy | Raised

fun any_of_conditions_from ::
  "nat \<Rightarrow> ('d \<Rightarrow> 'e cond_result) list \<Rightarrow> 'd \<Rightarrow> 'e option \<times> nat list" where
  "any_of_conditions_from i [] driver = (None, [])"
| "any_of_conditions_from i (condition # rest) driver =
     (case condition driver of
        Located r \<Rightarrow> (Some r, [i])
      | Falsy \<Rightarrow>
          (case any_of_conditions_from (Suc i) rest driver of (res, invoked) \<Rightarrow> (res, i # invoked))
      | Raised \<Rightarrow>
          (case any_of_conditions_from (Suc i) rest driver of (res, invoked) \<Rightarrow> (res, i # invoked)))"

definition any_of_conditions ::
  "('d \<Rightarrow> 'e cond_result) list \<Rightarrow> 'd \<Rightarrow> 'e option \<times> nat list" where
  "any_of_conditions conditions driver = any_of_conditions_from 0 conditions driver"

section \<open>Field normalizer: \<open>parse_gab_datetime\<close>\<close>

text \<open>
  \<open>re.sub(r'\s*\([^)]+\)', '', s)\<close>. At a position the pattern matches when the longest
  run of white space is followed by an opening parenthesis, at least one character
  other than a closing parenthesis, and a closing parenthesis; \<open>match_paren\<close> returns
  what follows the match. The substitution deletes the matches from left to right.
\<close>

definition match_paren :: "string \<Rightarrow> string option" where
  "match_paren s =
     (case dropWhile is_space s of
        [] \<Rightarrow> None
      | c # r \<Rightarrow>
          if c = CHR ''('' \<and> takeWhile (\<lambda>x. x \<noteq> CHR '')'') r \<noteq> []
          then (case dropWhile (\<lambda>x. x \<noteq> CHR '')'') r of
                  [] \<Rightarrow> None
                | _ # rest \<Rightarrow> Some rest)
          else None)"

lemma match_paren_shorter: "match_paren s = Some rest \<Longrightarrow> length rest < length s"
proof -
  assume m: "match_paren s = Some rest"
  then obtain c r where cr: "dropWhile is_space s = c # r"
    by (auto simp: match_paren_def split: list.splits)
  with m obtain y where y: "dropWhile (\<lambda>x. x \<noteq> CHR '')'') r = y # rest"
    by (auto simp: match_paren_def split: list.splits if_splits)
  have "length (y # rest) \<le> length r"
    using length_dropWhile_le [of "\<lambda>x. x \<noteq> CHR '')''" r] y by simp
  moreover have "length (c # r) \<le> length s"
    using length_dropWhile_le [of is_space s] cr by simp
  ultimately show ?thesis by simp
qed

function re_sub_paren :: "string \<Rightarrow> string" where
  "re_sub_paren [] = []"
| "re_sub_paren (c # cs) =
     (case match_paren (c # cs) of
        Some rest \<Rightarrow> re_sub_paren rest
      | None \<Rightarrow> c # re_sub_paren cs)"
  by pat_completeness auto
termination
  by (relation "measure length") (auto dest: match_paren_shorter)

definition gab_format :: string where
  "gab_format = ''%a %b %d %Y %H:%M:%S GMT%z''"

text \<open>
  \<open>datetime.strptime\<close> and \<open>datetime.isoformat\<close> belong to the standard library and are
  parameters: \<open>strptime s fmt\<close> is \<open>None\<close> when the library raises \<open>ValueError\<close>, the one
  exception it raises on two strings. The argument and the result are \<open>None\<close> for
  Python's \<open>None\<close>.
\<close>

definition parse_gab_datetime ::
  "(string \<Rightarrow> string \<Rightarrow> 'dt option) \<Rightarrow> ('dt \<Rightarrow> string) \<Rightarrow> string option \<Rightarrow> string option" where
  "parse_gab_datetime strptime isoformat dt_string =
     (case dt_string of
        None \<Rightarrow> None
      | Some s \<Rightarrow>
          if s = [] then None
          else
            (let clean_dt_string = strip (re_sub_paren s) in
             case strptime clean_dt_string gab_format of
               None \<Rightarrow> None
             | Some dt_object \<Rightarrow> Some (isoformat dt_object)))"

section \<open>Record extractor of the Gab rescraper: \<open>get_post_details\<close>\<close>

text \<open>\<open>post_url.split('/')[-1].split('?')[0].split('#')[0]\<close>\<close>

definition post_id_of_url :: "string \<Rightarrow> string" where
  "post_id_of_url post_url =
     takeWhile (\<lambda>c. c \<noteq> CHR ''#'')
       (takeWhile (\<lambda>c. c \<noteq> CHR ''?'')
          (rev (takeWhile (\<lambda>c. c \<noteq> CHR ''/'') (rev post_url))))"

text \<open>
  The image pattern
  \<open>src="(https?://m3\.gab\.com/media_attachments/[^"]+\.(?:jpg|jpeg|png|gif|webp)[^"]*)"\<close>.
  After the fixed prefix the match runs to the next double quote, and the text in
  between needs a dot with an extension that is not at its first character. The group
  is everything between the quotes.
\<close>

definition image_extensions :: "string list" where
  "image_extensions = [''.jpg'', ''.jpeg'', ''.png'', ''.gif'', ''.webp'']"

fun has_extension :: "string \<Rightarrow> bool" where
  "has_extension [] = False"
| "has_extension (c # cs) = (list_ex (startswith (c # cs)) image_extensions \<or> has_extension cs)"

definition img_src_prefix :: "string \<Rightarrow> string option" where
  \<open>img_src_prefix s =
     (if startswith s ''src="https://m3.gab.com/media_attachments/''
      then Some ''src="https://m3.gab.com/media_attachments/''
      else if startswith s ''src="http://m3.gab.com/media_attachments/''
      then Some ''src="http://m3.gab.com/media_attachments/''
      else None)\<close>

definition match_img_body :: "string \<Rightarrow> string \<Rightarrow> (string \<times> string) option" where
  \<open>match_img_body pre r =
     (let body = takeWhile (\<lambda>c. c \<noteq> CHR ''"'') r in
      case dropWhile (\<lambda>c. c \<noteq> CHR ''"'') r of
        [] \<Rightarrow> None
      | _ # rest \<Rightarrow>
          if body \<noteq> [] \<and> has_extension (tl body)
          then Some (drop 5 pre @ body, rest)
          else None)\<close>

definition match_img_src :: "string \<Rightarrow> (string \<times> string) option" where
  "match_img_src s =
     (case img_src_prefix s of
        None \<Rightarrow> None
      | Some pre \<Rightarrow> match_img_body pre (drop (length pre) s))"

lemma match_img_body_shorter: "match_img_body pre r = Some (g, rest) \<Longrightarrow> length rest < length r"
proof -
  assume m: "match_img_body pre r = Some (g, rest)"
  then obtain y where y: \<open>dropWhile (\<lambda>c. c \<noteq> CHR ''"'') r = y # rest\<close>
    unfolding match_img_body_def Let_def by (simp split: list.splits if_splits)
  have "length (y # rest) \<le> length r"
    using length_dropWhile_le [of _ r] y by metis
  then show ?thesis by simp
qed

lemma match_img_src_shorter: "match_img_src s = Some (g, rest) \<Longrightarrow> length rest < length s"
proof -
  assume m: "match_img_src s = Some (g, rest)"
  then obtain pre where "match_img_body pre (drop (length pre) s) = Some (g, rest)"
    unfolding match_img_src_def by (simp split: option.splits)
  then have "length rest < length (drop (length pre) s)"
    by (rule match_img_body_shorter)
  then show ?thesis by simp
qed

text \<open>\<open>[m.group(1) for m in img_src_pattern.finditer(html)]\<close>: the matches from left to
  right, each search resuming after the previous match.\<close>

function img_src_finditer :: "string \<Rightarrow> string list" where
  "img_src_finditer [] = []"
| "img_src_finditer (c # cs) =
     (case match_img_src (c # cs) of
        Some (g, rest) \<Rightarrow> g # img_src_finditer rest
      | None \<Rightarrow> img_src_finditer cs)"
  by pat_completeness auto
termination
  by (relation "measure length") (auto dest: match_img_src_shorter)

text \<open>\<open>list(set(xs))\<close>. Python leaves the order of the result open; the model keeps the
  order of first occurrence, and no statement below depends on the order.\<close>

definition list_of_set :: "'a list \<Rightarrow> 'a list" where
  "list_of_set xs = remdups xs"

text \<open>
  The rendered page is the environment of the extractor: a record of what the driver
  answers at each step, \<open>Inl\<close> for the exception raised there (of class \<open>Exception\<close>) and
  \<open>Inr\<close> for the value. The fields \<open>author_username\<close>, \<open>text\<close> and the text and timestamps
  of a reply are not modelled: the steps that fill them handle every exception
  themselves and do not decide whether a record is returned.
\<close>

record reply_elem =
  data_comment :: "pyexn + string option"
  reply_outer_html :: "pyexn + string"

record matches =
  reactions_match :: "string option"
  reactions_text_match :: "string option"
  reposts_match :: "string option"
  quotes_match :: "string option"
  views_button_match :: "string option"
  views_span_match :: "string option"
  views_text_match :: "string option"

record page =
  load :: "pyexn + unit"
  main_post_element :: "pyexn + unit"
  outer_html :: "pyexn + string"
  timestamp_elem :: "pyexn + (string option \<times> string)"
  page_source :: "pyexn + matches"
  scrolled_comments :: bool
  scroll_window :: "pyexn + unit"
  reply_elements :: "pyexn + reply_elem list"

record reply =
  reply_id :: string
  reply_image_urls :: "string list"

record post =
  post_id :: string
  post_url :: string
  image_urls :: "string list"
  timestamp :: string
  timestamp_iso :: string
  likes :: int
  reposts_count :: int
  quotes_count :: int
  views :: int
  replies :: "reply list"

text \<open>The standard library and the clock: \<open>lib_age_days ts_iso\<close> is
  \<open>(datetime.now(timezone.utc) - datetime.fromisoformat(ts_iso)).days\<close>.\<close>

record 'dt pylib =
  lib_strptime :: "string \<Rightarrow> string \<Rightarrow> 'dt option"
  lib_isoformat :: "'dt \<Rightarrow> string"
  lib_age_days :: "string \<Rightarrow> pyexn + int"

record config =
  MIN_POST_AGE_DAYS :: int
  MIN_REPLIES_REQUIRED :: int

definition count_or_zero :: "string option \<Rightarrow> pyexn + int" where
  "count_or_zero m = (case m of None \<Rightarrow> Inr 0 | Some g \<Rightarrow> extract_count_from_string (Some g))"

definition scrape_likes :: "matches \<Rightarrow> pyexn + int" where
  "scrape_likes m =
     (case reactions_match m of
        Some g \<Rightarrow> extract_count_from_string (Some g)
      | None \<Rightarrow> count_or_zero (reactions_text_match m))"

definition scrape_views :: "matches \<Rightarrow> pyexn + int" where
  "scrape_views m =
     (case views_button_match m of
        Some g \<Rightarrow> extract_count_from_string (Some g)
      | None \<Rightarrow>
          (case views_span_match m of
             Some g \<Rightarrow> extract_count_from_string (Some g)
           | None \<Rightarrow> count_or_zero (views_text_match m)))"

text \<open>The first loop over the reply elements keeps one element for each identifier that is
  not empty; a stale element is skipped, any other exception ends the reply section.
  The second loop reads \<open>data-comment\<close> of the kept elements again, which is taken to
  give the same value as the first time.\<close>

fun unique_reply_elements :: "reply_elem list \<Rightarrow> string list \<Rightarrow> pyexn + reply_elem list" where
  "unique_reply_elements [] seen_identifiers = Inr []"
| "unique_reply_elements (elem # elems) seen_identifiers =
     (case data_comment elem of
        Inl e \<Rightarrow>
          if e = StaleElementReferenceException
          then unique_reply_elements elems seen_identifiers
          else Inl e
      | Inr None \<Rightarrow> unique_reply_elements elems seen_identifiers
      | Inr (Some elem_identifier) \<Rightarrow>
          if elem_identifier = [] \<or> elem_identifier \<in> set seen_identifiers
          then unique_reply_elements elems seen_identifiers
          else
            (case unique_reply_elements elems (elem_identifier # seen_identifiers) of
               Inl e \<Rightarrow> Inl e
             | Inr us \<Rightarrow> Inr (elem # us)))"

definition scrape_reply :: "reply_elem \<Rightarrow> reply" where
  "scrape_reply reply_elem =
     \<lparr>reply_id = (case data_comment reply_elem of Inr (Some i) \<Rightarrow> i | _ \<Rightarrow> []),
      reply_image_urls =
        (case reply_outer_html reply_elem of
           Inl _ \<Rightarrow> []
         | Inr reply_html \<Rightarrow> list_of_set (img_src_finditer reply_html))\<rparr>"

definition scrape_replies :: "pyexn + reply_elem list \<Rightarrow> reply list" where
  "scrape_replies found =
     (case found of
        Inl _ \<Rightarrow> []
      | Inr all_reply_elements \<Rightarrow>
          (case unique_reply_elements all_reply_elements [] of
             Inl _ \<Rightarrow> []
           | Inr us \<Rightarrow> map scrape_reply us))"

text \<open>The image step: any exception leaves the empty list.\<close>

definition scrape_image_urls :: "pyexn + string \<Rightarrow> string list" where
  "scrape_image_urls html =
     (case html of
        Inl _ \<Rightarrow> []
      | Inr main_post_html \<Rightarrow> list_of_set (img_src_finditer main_post_html))"

text \<open>\<open>timestamp_elem.get_attribute('datetime') or timestamp_elem.text.strip()\<close>\<close>

definition raw_timestamp_of :: "string option \<times> string \<Rightarrow> string" where
  "raw_timestamp_of elem =
     (case fst elem of
        None \<Rightarrow> strip (snd elem)
      | Some a \<Rightarrow> if a = [] then strip (snd elem) else a)"

text \<open>The age filter on a parsed timestamp: \<open>True\<close> when the post passes. An exception
  raised by the computation of the age is caught by the handler that skips the post.\<close>

definition age_filter :: "config \<Rightarrow> 'dt pylib \<Rightarrow> string \<Rightarrow> bool" where
  "age_filter cfg lib ts_iso =
     (case lib_age_days lib ts_iso of
        Inl _ \<Rightarrow> False
      | Inr days \<Rightarrow> \<not> days < MIN_POST_AGE_DAYS cfg)"

text \<open>The timestamp step: \<open>None\<close> where the source returns \<open>None\<close> from the function (the
  element is not resolved, the timestamp does not parse, the post is too young, or an
  exception is raised), else the raw and the normalized timestamp.\<close>

definition scrape_timestamp :: "config \<Rightarrow> 'dt pylib \<Rightarrow> page \<Rightarrow> (string \<times> string) option" where
  "scrape_timestamp cfg lib pg =
     (case timestamp_elem pg of
        Inl _ \<Rightarrow> None
      | Inr elem \<Rightarrow>
          (case parse_gab_datetime (lib_strptime lib) (lib_isoformat lib)
                  (Some (raw_timestamp_of elem)) of
             None \<Rightarrow> None
           | Some ts_iso \<Rightarrow>
               if ts_iso \<noteq> [] \<and> age_filter cfg lib ts_iso
               then Some (raw_timestamp_of elem, ts_iso)
               else None))"

text \<open>The interaction counts, read from the page source: \<open>None\<close> when reading the source
  or a conversion raises, which the outer handler turns into \<open>return None\<close>.\<close>

definition scrape_interactions :: "page \<Rightarrow> (int \<times> int \<times> int \<times> int) option" where
  "scrape_interactions pg =
     (case page_source pg of
        Inl _ \<Rightarrow> None
      | Inr m \<Rightarrow>
          (case (scrape_likes m, count_or_zero (reposts_match m),
                 count_or_zero (quotes_match m), scrape_views m) of
             (Inr n_likes, Inr n_reposts, Inr n_quotes, Inr n_views) \<Rightarrow>
               Some (n_likes, n_reposts, n_quotes, n_views)
           | _ \<Rightarrow> None))"

text \<open>\<open>get_post_details\<close> returns \<open>Inr None\<close> for Python's \<open>None\<close>, \<open>Inr (Some post_data)\<close> for
  the record, and \<open>Inl e\<close> when the scroll of the window, which stands outside every
  \<open>try\<close>, raises.\<close>

definition get_post_details :: "config \<Rightarrow> 'dt pylib \<Rightarrow> string \<Rightarrow> page \<Rightarrow> pyexn + post option" where
  "get_post_details cfg lib url pg =
     (if isl (load pg) \<or> isl (main_post_element pg) then Inr None
      else
        (case scrape_timestamp cfg lib pg of
           None \<Rightarrow> Inr None
         | Some ts \<Rightarrow>
             (case scrape_interactions pg of
                None \<Rightarrow> Inr None
              | Some counts \<Rightarrow>
                  (case (if scrolled_comments pg then Inr () else scroll_window pg) of
                     Inl e \<Rightarrow> Inl e
                   | Inr _ \<Rightarrow>
                       if int (length (scrape_replies (reply_elements pg))) < MIN_REPLIES_REQUIRED cfg
                       then Inr None
                       else Inr (Some
                         \<lparr>post_id = post_id_of_url url, post_url = url,
                          image_urls = scrape_image_urls (outer_html pg),
                          timestamp = fst ts, timestamp_iso = snd ts,
                          likes = fst counts, reposts_count = fst (snd counts),
                          quotes_count = fst (snd (snd counts)),
                          views = snd (snd (snd counts)),
                          replies = scrape_replies (reply_elements pg)\<rparr>)))))"

section \<open>Record extractor of the Gab scraper: \<open>get_post_details\<close> of \<open>gab_scraper_14.py\<close>\<close>

text \<open>
  The function of the same name in \<open>gab_scraper_14.py\<close>. It computes the identifier and
  the image URLs by the same statements as the rescraper, keeps a record whose timestamp
  is not resolved (with a sentinel string), has no age or reply filter, and stands in
  handlers throughout, so it returns \<open>None\<close> or a record and never raises. Names that the
  two files share carry the suffix \<open>14\<close> here. The fields \<open>author_username\<close> and \<open>text\<close>, and
  the author, text and timestamp of a reply, are not modelled: the steps that fill them
  handle every exception themselves. A reply of this file has no list of images.
\<close>

record reply_elem14 =
  filter_lookups :: "pyexn + bool"
  id_attrs :: "pyexn + (string option \<times> string option)"
  fallback_id :: string
  likes_match :: "pyexn + string option"

record page14 =
  load14 :: "pyexn + unit"
  main_post_element14 :: "pyexn + unit"
  outer_html14 :: "pyexn + string"
  timestamp_elem14 :: "pyexn + (string option \<times> string)"
  page_source14 :: "pyexn + matches"
  reply_elements14 :: "pyexn + reply_elem14 list"

record reply14 =
  reply_id14 :: string
  reply_likes14 :: int

record post14 =
  post_id14 :: string
  post_url14 :: string
  image_urls14 :: "string list"
  timestamp14 :: string
  likes14 :: int
  reposts_count14 :: int
  quotes_count14 :: int
  views14 :: int
  replies14 :: "reply14 list"

text \<open>The timestamp step stores the raw timestamp, or a sentinel for the exception.\<close>

definition scrape_timestamp14 :: "pyexn + (string option \<times> string) \<Rightarrow> string" where
  "scrape_timestamp14 found =
     (case found of
        Inr elem \<Rightarrow> raw_timestamp_of elem
      | Inl e \<Rightarrow>
          if e = TimeoutException then ''N/A (Timeout)''
          else if e = NoSuchElementException then ''N/A''
          else ''Error'')"

text \<open>The views of this file: the attribute of the button, else the pattern on the span
  (\<open>views_span_match\<close>), else 0; \<open>views_text_match\<close> is not read.\<close>

definition scrape_views14 :: "matches \<Rightarrow> pyexn + int" where
  "scrape_views14 m =
     (case views_button_match m of
        Some g \<Rightarrow> extract_count_from_string (Some g)
      | None \<Rightarrow> count_or_zero (views_span_match m))"

definition scrape_interactions14 :: "page14 \<Rightarrow> (int \<times> int \<times> int \<times> int) option" where
  "scrape_interactions14 pg =
     (case page_source14 pg of
        Inl _ \<Rightarrow> None
      | Inr m \<Rightarrow>
          (case (scrape_likes m, count_or_zero (reposts_match m),
                 count_or_zero (quotes_match m), scrape_views14 m) of
             (Inr n_likes, Inr n_reposts, Inr n_quotes, Inr n_views) \<Rightarrow>
               Some (n_likes, n_reposts, n_quotes, n_views)
           | _ \<Rightarrow> None))"

text \<open>A reply element passes the filter when both lookups find something; an exception
  skips it. \<open>reply_id\<close> is the first of \<open>data-comment\<close> and \<open>data-id\<close> that is not empty, else
  the string built from the index and a hash (\<open>fallback_id\<close>); an exception skips the reply.
  The likes are read under a handler of their own that leaves 0.\<close>

definition first_truthy :: "string option \<Rightarrow> string option \<Rightarrow> string \<Rightarrow> string" where
  "first_truthy a b c =
     (case a of
        Some x \<Rightarrow> if x \<noteq> [] then x else (case b of Some y \<Rightarrow> if y \<noteq> [] then y else c | None \<Rightarrow> c)
      | None \<Rightarrow> (case b of Some y \<Rightarrow> if y \<noteq> [] then y else c | None \<Rightarrow> c))"

definition scrape_reply_likes14 :: "pyexn + string option \<Rightarrow> int" where
  "scrape_reply_likes14 found =
     (case found of
        Inl _ \<Rightarrow> 0
      | Inr None \<Rightarrow> 0
      | Inr (Some g) \<Rightarrow> (case extract_count_from_string (Some g) of Inl _ \<Rightarrow> 0 | Inr n \<Rightarrow> n))"

definition scrape_reply14 :: "reply_elem14 \<Rightarrow> reply14 option" where
  "scrape_reply14 reply =
     (case id_attrs reply of
        Inl _ \<Rightarrow> None
      | Inr attrs \<Rightarrow>
          Some \<lparr>reply_id14 = first_truthy (fst attrs) (snd attrs) (fallback_id reply),
                reply_likes14 = scrape_reply_likes14 (likes_match reply)\<rparr>)"

definition scrape_replies14 :: "pyexn + reply_elem14 list \<Rightarrow> reply14 list" where
  "scrape_replies14 found =
     (case found of
        Inl _ \<Rightarrow> []
      | Inr elems \<Rightarrow>
          List.map_filter scrape_reply14
            (filter (\<lambda>r_elem. filter_lookups r_elem = Inr True) elems))"

definition get_post_details14 :: "string \<Rightarrow> page14 \<Rightarrow> post14 option" where
  "get_post_details14 url pg =
     (if isl (load14 pg) \<or> isl (main_post_element14 pg) then None
      else
        (case scrape_interactions14 pg of
           None \<Rightarrow> None
         | Some counts \<Rightarrow>
             Some \<lparr>post_id14 = post_id_of_url url, post_url14 = url,
                   image_urls14 = scrape_image_urls (outer_html14 pg),
                   timestamp14 = scrape_timestamp14 (timestamp_elem14 pg),
                   likes14 = fst counts, reposts_count14 = fst (snd counts),
                   quotes_count14 = fst (snd (snd counts)),
                   views14 = snd (snd (snd counts)),
                   replies14 = scrape_replies14 (reply_elements14 pg)\<rparr>))"

section \<open>Record extractor of the 4chan scraper: \<open>scrape_pol_thread\<close>\<close>

text \<open>\<open>url.replace("s.jpg", ".jpg")\<close> replaces every occurrence, from left to right.\<close>

function replace_s_jpg :: "string \<Rightarrow> string" where
  "replace_s_jpg [] = []"
| "replace_s_jpg (c # cs) =
     (if startswith (c # cs) ''s.jpg'' then ''.jpg'' @ replace_s_jpg (drop 4 cs)
      else c # replace_s_jpg cs)"
  by pat_completeness auto
termination
  by (relation "measure length") auto

definition endswith :: "string \<Rightarrow> string \<Rightarrow> bool" where
  "endswith s p = startswith (rev s) (rev p)"

text \<open>\<open>fix_image_urls\<close>: an image without a \<open>src\<close> attribute gives \<open>None\<close> in the list, and
  \<open>None.endswith\<close> raises \<open>AttributeError\<close>.\<close>

fun fix_image_urls :: "string option list \<Rightarrow> pyexn + string list" where
  "fix_image_urls [] = Inr []"
| "fix_image_urls (None # urls) = Inl AttributeError"
| "fix_image_urls (Some url # urls) =
     (case fix_image_urls urls of
        Inl e \<Rightarrow> Inl e
      | Inr fixed \<Rightarrow> Inr ((if endswith url ''s.jpg'' then replace_s_jpg url else url) # fixed))"

text \<open>
  The thread page as the driver shows it. The fields \<open>author_id\<close>, \<open>text\<close> and the
  timestamps are not modelled: each is read under a handler of its own that stores
  \<open>None\<close> on any exception.
\<close>

record reply_article =
  ra_id :: "pyexn + string option"
  ra_img_srcs :: "pyexn + string option list"

record thread_page =
  thread_article :: "pyexn + unit"
  article_id :: "pyexn + string option"
  thread_img_srcs :: "pyexn + string option list"
  reply_articles :: "pyexn + reply_article list"

record thread_reply =
  r_reply_id :: "string option"
  r_image_urls :: "string list"

record thread_data =
  op_post_id :: "string option"
  op_post_url :: string
  op_image_urls :: "string list"
  op_reply_count :: nat
  op_replies :: "thread_reply list"

text \<open>Every exception of class \<open>Exception\<close> inside \<open>scrape_pol_thread\<close> reaches the handler
  that returns the empty dictionary, which is \<open>None\<close> here.\<close>

definition or_empty :: "pyexn + 'a \<Rightarrow> ('a \<Rightarrow> 'b option) \<Rightarrow> 'b option" where
  "or_empty step continue = (case step of Inl _ \<Rightarrow> None | Inr x \<Rightarrow> continue x)"

definition scrape_reply_article :: "reply_article \<Rightarrow> thread_reply option" where
  "scrape_reply_article ra =
     or_empty (ra_id ra) (\<lambda>rid.
     or_empty (ra_img_srcs ra) (\<lambda>srcs.
     or_empty (fix_image_urls srcs) (\<lambda>urls.
       Some \<lparr>r_reply_id = rid, r_image_urls = urls\<rparr>)))"

fun scrape_reply_articles :: "reply_article list \<Rightarrow> thread_reply list option" where
  "scrape_reply_articles [] = Some []"
| "scrape_reply_articles (ra # ras) =
     (case scrape_reply_article ra of
        None \<Rightarrow> None
      | Some r \<Rightarrow> map_option (Cons r) (scrape_reply_articles ras))"

definition scrape_pol_thread :: "string \<Rightarrow> thread_page \<Rightarrow> thread_data option" where
  "scrape_pol_thread thread_url pg =
     or_empty (thread_article pg) (\<lambda>_.
     or_empty (article_id pg) (\<lambda>pid.
     or_empty (thread_img_srcs pg) (\<lambda>srcs.
     or_empty (fix_image_urls srcs) (\<lambda>urls.
     or_empty (reply_articles pg) (\<lambda>ras.
       map_option
         (\<lambda>rs. \<lparr>op_post_id = pid, op_post_url = thread_url, op_image_urls = urls,
                 op_reply_count = length ras, op_replies = rs\<rparr>)
         (scrape_reply_articles ras))))))"

section \<open>Crawl loops and the dump of the dataset\<close>

text \<open>
  What happens while one URL is processed: the extractor returns (\<open>Details\<close>, with its
  result), the user interrupts the run, or a driver call of the loop body raises.
  The Gab rescraper first waits for the new tab; when the wait times out the URL is
  skipped (\<open>NewTabTimeout\<close>).
\<close>

datatype 'r visit = Details "pyexn + 'r option" | KeyboardInterrupt | LoopError

datatype 'r tab_visit = NewTabTimeout | Opened "'r visit"

datatype 'r loop_end = Finished "'r list" | Interrupted "'r list" | Failed "'r list"

text \<open>The file a dump goes to: the file of a complete run, \<open>..._interrupt_dump_...\<close> or
  \<open>..._error_dump_...\<close>. A run is described by the list of its calls of \<open>json.dump\<close>, each
  with the dataset written; writing the file is taken to succeed.\<close>

datatype dump_file = DataFile | InterruptDump | ErrorDump

text \<open>The outcome of a phase of \<open>main\<close> outside the loop: it passes, is interrupted by
  the user, or raises.\<close>

datatype phase_end = Passed | PhaseInterrupted | PhaseFailed

text \<open>The loop of \<open>main\<close> in \<open>gab_past_post_rescraper.py\<close>, over the URLs of the list.\<close>

fun rescraper_loop :: "'r tab_visit list \<Rightarrow> 'r list \<Rightarrow> 'r loop_end" where
  "rescraper_loop [] dataset = Finished dataset"
| "rescraper_loop (NewTabTimeout # vs) dataset = rescraper_loop vs dataset"
| "rescraper_loop (Opened (Details (Inr (Some post_details))) # vs) dataset =
     rescraper_loop vs (dataset @ [post_details])"
| "rescraper_loop (Opened (Details (Inr None)) # vs) dataset = rescraper_loop vs dataset"
| "rescraper_loop (Opened (Details (Inl e)) # vs) dataset = Failed dataset"
| "rescraper_loop (Opened KeyboardInterrupt # vs) dataset = Interrupted dataset"
| "rescraper_loop (Opened LoopError # vs) dataset = Failed dataset"

text \<open>\<open>main\<close> of the rescraper. The statements that install and start the browser driver
  stand before the \<open>try\<close>: when they raise or are interrupted (\<open>setup\<close>), the process ends
  without a dump. Everything after them stands in one \<open>try\<close> whose handlers dump the
  dataset: \<open>except KeyboardInterrupt\<close> to the interrupt file, \<open>except Exception\<close> to the
  error file. \<open>startup\<close> is the outcome of the statements of the \<open>try\<close> before the loop (the
  login page, reading the list of URLs), \<open>quit\<close> that of \<open>driver.quit()\<close> after it.\<close>

definition main_rescraper ::
  "phase_end \<Rightarrow> phase_end \<Rightarrow> 'r tab_visit list \<Rightarrow> phase_end \<Rightarrow> (dump_file \<times> 'r list) list" where
  "main_rescraper setup startup visits quit =
     (case setup of
        PhaseInterrupted \<Rightarrow> []
      | PhaseFailed \<Rightarrow> []
      | Passed \<Rightarrow>
          (case startup of
             PhaseInterrupted \<Rightarrow> [(InterruptDump, [])]
           | PhaseFailed \<Rightarrow> [(ErrorDump, [])]
           | Passed \<Rightarrow>
               (case rescraper_loop visits [] of
                  Finished dataset \<Rightarrow>
                    (case quit of
                       Passed \<Rightarrow> if dataset \<noteq> [] then [(DataFile, dataset)] else []
                     | PhaseInterrupted \<Rightarrow> [(InterruptDump, dataset)]
                     | PhaseFailed \<Rightarrow> [(ErrorDump, dataset)])
                | Interrupted dataset \<Rightarrow> [(InterruptDump, dataset)]
                | Failed dataset \<Rightarrow> [(ErrorDump, dataset)])))"

text \<open>The value of \<open>POSTS_TO_SCRAPE\<close> in \<open>gab_past_post_rescraper.py\<close>; its \<open>main\<close> does not
  read it.\<close>

definition POSTS_TO_SCRAPE :: int where
  "POSTS_TO_SCRAPE = 1000"

text \<open>The loop of \<open>main\<close> in \<open>gab_scraper_14.py\<close>, over the collected URLs, with the target
  \<open>POSTS_TO_SCRAPE\<close> of that file as a parameter.\<close>

fun scraper_loop :: "int \<Rightarrow> 'r visit list \<Rightarrow> 'r list \<Rightarrow> 'r loop_end" where
  "scraper_loop target [] dataset = Finished dataset"
| "scraper_loop target (v # vs) dataset =
     (if target \<le> int (length dataset) then Finished dataset
      else
        (case v of
           Details (Inr (Some post_details)) \<Rightarrow> scraper_loop target vs (dataset @ [post_details])
         | Details (Inr None) \<Rightarrow> scraper_loop target vs dataset
         | Details (Inl e) \<Rightarrow> Failed dataset
         | KeyboardInterrupt \<Rightarrow> Interrupted dataset
         | LoopError \<Rightarrow> Failed dataset))"

text \<open>\<open>main\<close> of \<open>gab_scraper_14.py\<close>. \<open>startup\<close> is the outcome of the statements before the
  loop that no handler covers (starting the driver, the login page, scrolling, collecting
  the URLs); \<open>explore_loaded\<close> is false when the wait on the Explore page fails, where the
  function returns. Without URLs the function returns too. No statement of the function
  is covered by a handler that dumps.\<close>

definition main_scraper ::
  "int \<Rightarrow> phase_end \<Rightarrow> bool \<Rightarrow> 'r visit list \<Rightarrow> phase_end \<Rightarrow> (dump_file \<times> 'r list) list" where
  "main_scraper target startup explore_loaded visits quit =
     (case startup of
        PhaseInterrupted \<Rightarrow> []
      | PhaseFailed \<Rightarrow> []
      | Passed \<Rightarrow>
          if explore_loaded \<and> visits \<noteq> []
          then
            (case scraper_loop target visits [] of
               Finished dataset \<Rightarrow>
                 (case quit of
                    Passed \<Rightarrow> if dataset \<noteq> [] then [(DataFile, dataset)] else []
                  | PhaseInterrupted \<Rightarrow> []
                  | PhaseFailed \<Rightarrow> [])
             | Interrupted dataset \<Rightarrow> []
             | Failed dataset \<Rightarrow> [])
          else [])"

text \<open>The loops of the 4chan scraper: threads of one archive page, then the pages. An
  archive page without thread URLs ends the pagination.\<close>

datatype 'r archive_page = Archive "'r visit list" | ArchiveInterrupt | ArchiveError

fun thread_loop :: "int \<Rightarrow> 'r visit list \<Rightarrow> 'r list \<Rightarrow> 'r loop_end" where
  "thread_loop target_posts [] all_scraped_data = Finished all_scraped_data"
| "thread_loop target_posts (v # vs) all_scraped_data =
     (if target_posts \<le> int (length all_scraped_data) then Finished all_scraped_data
      else
        (case v of
           Details (Inr (Some data)) \<Rightarrow> thread_loop target_posts vs (all_scraped_data @ [data])
         | Details (Inr None) \<Rightarrow> thread_loop target_posts vs all_scraped_data
         | Details (Inl e) \<Rightarrow> Failed all_scraped_data
         | KeyboardInterrupt \<Rightarrow> Interrupted all_scraped_data
         | LoopError \<Rightarrow> Failed all_scraped_data))"

fun page_loop :: "int \<Rightarrow> 'r archive_page list \<Rightarrow> 'r list \<Rightarrow> 'r loop_end" where
  "page_loop target_posts [] all_scraped_data = Finished all_scraped_data"
| "page_loop target_posts (pg # pgs) all_scraped_data =
     (if target_posts \<le> int (length all_scraped_data) then Finished all_scraped_data
      else
        (case pg of
           ArchiveInterrupt \<Rightarrow> Interrupted all_scraped_data
         | ArchiveError \<Rightarrow> Failed all_scraped_data
         | Archive thread_urls_on_page \<Rightarrow>
             if thread_urls_on_page = [] then Finished all_scraped_data
             else
               (case thread_loop target_posts thread_urls_on_page all_scraped_data of
                  Finished d \<Rightarrow> page_loop target_posts pgs d
                | Interrupted d \<Rightarrow> Interrupted d
                | Failed d \<Rightarrow> Failed d)))"

definition loop_data :: "'r loop_end \<Rightarrow> 'r list" where
  "loop_data r = (case r of Finished d \<Rightarrow> d | Interrupted d \<Rightarrow> d | Failed d \<Rightarrow> d)"

text \<open>The main block of the 4chan scraper: the \<open>finally\<close> clause writes the data, cut to
  \<open>target_posts\<close>, on every way out of the loops unless nothing was collected.\<close>

definition main_4chan :: "int \<Rightarrow> 'r archive_page list \<Rightarrow> (dump_file \<times> 'r list) list" where
  "main_4chan target_posts pages =
     (let posts_per_page = 10;
          num_pages_to_scrape = (target_posts + posts_per_page - 1) div posts_per_page;
          all_scraped_data =
            loop_data (page_loop target_posts (take (nat num_pages_to_scrape) pages) [])
      in if all_scraped_data \<noteq> []
         then [(DataFile, take (nat target_posts) all_scraped_data)]
         else [])"

section \<open>The run as the specification describes it\<close>

text \<open>For the rescraper: the records appended before the run ends, and the way it ends
  (completion, interrupt or error), read off the list of visits.\<close>

fun appended_records :: "'r tab_visit list \<Rightarrow> 'r list" where
  "appended_records [] = []"
| "appended_records (NewTabTimeout # vs) = appended_records vs"
| "appended_records (Opened (Details (Inr (Some r))) # vs) = r # appended_records vs"
| "appended_records (Opened (Details (Inr None)) # vs) = appended_records vs"
| "appended_records (Opened (Details (Inl e)) # vs) = []"
| "appended_records (Opened KeyboardInterrupt # vs) = []"
| "appended_records (Opened LoopError # vs) = []"

fun terminal_transition :: "'r tab_visit list \<Rightarrow> dump_file" where
  "terminal_transition [] = DataFile"
| "terminal_transition (NewTabTimeout # vs) = terminal_transition vs"
| "terminal_transition (Opened (Details (Inr r)) # vs) = terminal_transition vs"
| "terminal_transition (Opened (Details (Inl e)) # vs) = ErrorDump"
| "terminal_transition (Opened KeyboardInterrupt # vs) = InterruptDump"
| "terminal_transition (Opened LoopError # vs) = ErrorDump"

definition run_end :: "'r tab_visit list \<Rightarrow> phase_end \<Rightarrow> dump_file" where
  "run_end visits quit =
     (case terminal_transition visits of
        DataFile \<Rightarrow>
          (case quit of
             Passed \<Rightarrow> DataFile
           | PhaseInterrupted \<Rightarrow> InterruptDump
           | PhaseFailed \<Rightarrow> ErrorDump)
      | InterruptDump \<Rightarrow> InterruptDump
      | ErrorDump \<Rightarrow> ErrorDump)"

section \<open>A stub of the date library\<close>

definition stub_strptime :: "string \<Rightarrow> string \<Rightarrow> int option" where
  "stub_strptime s fmt =
     (if s = ''Mon Jul 07 2025 07:59:42 GMT-0700'' \<and> fmt = ''%a %b %d %Y %H:%M:%S GMT%z''
      then Some 1751900382 else None)"

definition stub_isoformat :: "int \<Rightarrow> string" where
  "stub_isoformat t = (if t = 1751900382 then ''2025-07-07T07:59:42-07:00'' else ''1970-01-01T00:00:00+00:00'')"

section \<open>Example environments\<close>

text \<open>A library stub that parses one timestamp, the configuration of the source, a page
  of the Gab site whose markup names the same image twice, the same page without a
  timestamp element and with a timestamp that does not parse, the page as
  \<open>gab_scraper_14.py\<close> meets it, and thread pages of the 4chan archive whose thread and
  reply each show the same thumbnail twice.\<close>

definition stub_lib :: "int pylib" where
  "stub_lib = \<lparr>lib_strptime = stub_strptime, lib_isoformat = stub_isoformat,
               lib_age_days = (\<lambda>_. Inr 120)\<rparr>"

definition source_config :: config where
  "source_config = \<lparr>MIN_POST_AGE_DAYS = 0, MIN_REPLIES_REQUIRED = 0\<rparr>"

definition example_markup :: string where
  \<open>example_markup =
     ''<img src="https://m3.gab.com/media_attachments/files/1/a.jpg"> '' @
     ''<a><img src="https://m3.gab.com/media_attachments/files/1/a.jpg"></a>''\<close>

definition example_page :: page where
  "example_page =
     \<lparr>load = Inr (), main_post_element = Inr (), outer_html = Inr example_markup,
      timestamp_elem =
        Inr (Some ''Mon Jul 07 2025 07:59:42 GMT-0700 (Pacific Daylight Time)'', ''2h''),
      page_source =
        Inr \<lparr>reactions_match = Some ''257'', reactions_text_match = None,
             reposts_match = Some ''1.2K'', quotes_match = None,
             views_button_match = None, views_span_match = None,
             views_text_match = Some ''3M''\<rparr>,
      scrolled_comments = True, scroll_window = Inr (),
      reply_elements =
        Inr [\<lparr>data_comment = Inr (Some ''c1''), reply_outer_html = Inr example_markup\<rparr>,
             \<lparr>data_comment = Inr (Some ''c1''), reply_outer_html = Inr example_markup\<rparr>]\<rparr>"

definition example_page_without_time :: page where
  "example_page_without_time = example_page\<lparr>timestamp_elem := Inl TimeoutException\<rparr>"

definition example_page_bad_time :: page where
  "example_page_bad_time = example_page\<lparr>timestamp_elem := Inr (None, '' 2h ago '')\<rparr>"

definition example_url :: string where
  "example_url = ''https://gab.com/alice/posts/114812345678?ref=x#top''"

definition example_thread :: "string \<Rightarrow> thread_page" where
  "example_thread aid =
     \<lparr>thread_article = Inr (), article_id = Inr (Some aid),
      thread_img_srcs =
        Inr [Some ''https://i.4pcdn.org/pol/1s.jpg'', Some ''https://i.4pcdn.org/pol/1s.jpg''],
      reply_articles =
        Inr [\<lparr>ra_id = Inr (Some ''r1''),
              ra_img_srcs =
                Inr [Some ''https://i.4pcdn.org/pol/2s.jpg'', Some ''https://i.4pcdn.org/pol/2s.jpg'']\<rparr>]\<rparr>"

definition example_thread_url :: string where
  "example_thread_url = ''https://archive.4plebs.org/pol/thread/1/''"

definition example_post :: post where
  "example_post =
     \<lparr>post_id = ''114812345678'', post_url = example_url,
      image_urls = [''https://m3.gab.com/media_attachments/files/1/a.jpg''],
      timestamp = ''Mon Jul 07 2025 07:59:42 GMT-0700 (Pacific Daylight Time)'',
      timestamp_iso = ''2025-07-07T07:59:42-07:00'',
      likes = 257, reposts_count = 1200, quotes_count = 0, views = 3000000,
      replies = [\<lparr>reply_id = ''c1'',
                  reply_image_urls = [''https://m3.gab.com/media_attachments/files/1/a.jpg'']\<rparr>]\<rparr>"

definition example_page14 :: page14 where
  "example_page14 =
     \<lparr>load14 = Inr (), main_post_element14 = Inr (), outer_html14 = Inr example_markup,
      timestamp_elem14 = Inl TimeoutException,
      page_source14 =
        Inr \<lparr>reactions_match = Some ''257'', reactions_text_match = None,
             reposts_match = Some ''1.2K'', quotes_match = None,
             views_button_match = None, views_span_match = None,
             views_text_match = None\<rparr>,
      reply_elements14 =
        Inr [\<lparr>filter_lookups = Inr True, id_attrs = Inr (None, Some ''r9''),
              fallback_id = ''reply_0_1'', likes_match = Inr (Some ''3'')\<rparr>,
             \<lparr>filter_lookups = Inr False, id_attrs = Inr (Some ''r8'', None),
              fallback_id = ''reply_1_2'', likes_match = Inr None\<rparr>]\<rparr>"

definition example_post14 :: post14 where
  "example_post14 =
     \<lparr>post_id14 = ''114812345678'', post_url14 = example_url,
      image_urls14 = [''https://m3.gab.com/media_attachments/files/1/a.jpg''],
      timestamp14 = ''N/A (Timeout)'',
      likes14 = 257, reposts_count14 = 1200, quotes_count14 = 0, views14 = 0,
      replies14 = [\<lparr>reply_id14 = ''r9'', reply_likes14 = 3\<rparr>]\<rparr>"

section \<open>Properties of \<open>extract_count_from_string\<close>\<close>

lemma count_thousands_separator: "extract_count_from_string (Some ''1,234'') = Inr 1234"
  by code_simp

lemma count_decimal_K: "extract_count_from_string (Some ''1.2K'') = Inr 1200"
  by code_simp

lemma count_M: "extract_count_from_string (Some ''3M'') = Inr 3000000"
  by code_simp

lemma count_empty: "extract_count_from_string (Some []) = Inr 0"
  by code_simp

lemma count_no_digits: "extract_count_from_string (Some ''no digits here'') = Inr 0"
  by code_simp

text \<open>
  C4. The reference examples of the magnitude parser: \<open>"1,234"\<close> gives 1234, \<open>"1.2K"\<close>
  gives 1200, \<open>"3M"\<close> gives 3000000, the empty string and \<open>"no digits here"\<close> give 0.
  The second example goes through binary floating point: \<open>float("1.2") * 1000\<close> rounds
  to exactly 1200.
\<close>

theorem extract_count_reference_examples:
  "extract_count_from_string (Some ''1,234'') = Inr 1234 \<and>
   extract_count_from_string (Some ''1.2K'') = Inr 1200 \<and>
   extract_count_from_string (Some ''3M'') = Inr 3000000 \<and>
   extract_count_from_string (Some []) = Inr 0 \<and>
   extract_count_from_string (Some ''no digits here'') = Inr 0"
  using count_thousands_separator count_decimal_K count_M count_empty count_no_digits
  by blast

lemma count_lower_k: "extract_count_from_string (Some ''1.2k'') = Inr 0"
  by code_simp

lemma count_lower_m: "extract_count_from_string (Some ''3m'') = Inr 0"
  by code_simp

lemma count_lower_t: "extract_count_from_string (Some ''5t'') = Inr 5"
  by code_simp

text \<open>
  C5. The claim is that a lower-case suffix scales like the upper-case one. The code
  finds the suffix in \<open>num_str.upper()\<close> but removes only the upper-case letter, so
  \<open>float\<close> receives \<open>"1.2k"\<close>, raises \<open>ValueError\<close>, and the function returns 0 where
  \<open>"1.2K"\<close> gives 1200; \<open>"3m"\<close> gives 0 as well, and \<open>t\<close> is not in the pattern at all, so
  \<open>"5t"\<close> gives 5.
\<close>

theorem lower_case_suffix_not_scaled:
  "extract_count_from_string (Some ''1.2k'') = Inr 0 \<and>
   extract_count_from_string (Some ''1.2K'') = Inr 1200 \<and>
   extract_count_from_string (Some ''3m'') = Inr 0 \<and>
   extract_count_from_string (Some ''5t'') = Inr 5"
  using count_lower_k count_decimal_K count_lower_m count_lower_t
  by blast

text \<open>A count that the function returns is never negative: the mantissa of every float
  it builds is not negative, and \<open>int\<close> truncates.\<close>

lemma digit_val_nonneg: "is_digit c \<Longrightarrow> 0 \<le> digit_val c"
  by (simp add: is_digit_def digit_val_def Let_def)

lemma foldl_decimal_nonneg:
  "0 \<le> a \<Longrightarrow> list_all is_digit ds \<Longrightarrow> 0 \<le> foldl (\<lambda>a c. 10 * a + digit_val c) a ds"
proof (induction ds arbitrary: a)
  case Nil
  then show ?case by simp
next
  case (Cons d ds)
  have "0 \<le> 10 * a + digit_val d"
    using Cons.prems digit_val_nonneg [of d] by simp
  then show ?case
    using Cons by simp
qed

lemma decimal_value_nonneg: "list_all is_digit ds \<Longrightarrow> 0 \<le> decimal_value ds"
  unfolding decimal_value_def by (rule foldl_decimal_nonneg) simp_all

lemma round_to_double_nonneg:
  assumes "0 \<le> p" "0 < q" "round_to_double p q = Finite m e"
  shows "0 \<le> m"
proof (cases "p = 0")
  case True
  then show ?thesis using assms(3) by (simp add: round_to_double_def)
next
  case False
  define x where "x = max (floor_log2 p q - 52) (- 1074)"
  define n where "n = p * 2 ^ nat (- x)"
  define d where "d = q * 2 ^ nat x"
  define m' where "m' = (if 2 * (n mod d) < d then n div d else if d < 2 * (n mod d) then n div d + 1
                  else if even (n div d) then n div d else n div d + 1)"
  have "0 \<le> n" "0 < d"
    using assms(1,2) by (simp_all add: n_def d_def)
  then have "0 \<le> n div d"
    by (simp add: pos_imp_zdiv_nonneg_iff)
  then have "0 \<le> m'"
    by (simp add: m'_def)
  moreover have "round_to_double p q = (if 0 \<le> x \<and> 2 ^ 1024 \<le> m' * 2 ^ nat x then Infinity else Finite m' x)"
    using False unfolding round_to_double_def Let_def m'_def d_def n_def x_def by simp
  then have "m = m'"
    using assms(3) by (simp split: if_splits)
  ultimately show ?thesis by simp
qed

lemma float_of_num_str_nonneg:
  assumes "float_of_num_str s = Some (Finite m e)"
  shows "0 \<le> m"
proof -
  define t where "t = rev (dropWhile is_float_space (rev (dropWhile is_float_space s)))"
  have ip: "list_all is_digit (takeWhile is_digit t)"
    by (auto simp: list_all_iff dest: set_takeWhileD)
  have unfolded: "(case dropWhile is_digit t of
        [] \<Rightarrow> if takeWhile is_digit t = [] then None
              else Some (round_to_double (decimal_value (takeWhile is_digit t)) 1)
      | c # fp \<Rightarrow>
          if c = CHR ''.'' \<and> list_all is_digit fp \<and> (takeWhile is_digit t \<noteq> [] \<or> fp \<noteq> [])
          then Some (round_to_double (decimal_value (takeWhile is_digit t @ fp)) (10 ^ length fp))
          else None) = Some (Finite m e)"
    using assms unfolding float_of_num_str_def Let_def t_def .
  show ?thesis
  proof (cases "dropWhile is_digit t")
    case Nil
    have "round_to_double (decimal_value (takeWhile is_digit t)) 1 = Finite m e"
      using unfolded unfolding Nil list.case by (simp split: if_splits)
    then show ?thesis
      using round_to_double_nonneg [of "decimal_value (takeWhile is_digit t)" 1 m e]
        decimal_value_nonneg [OF ip] by simp
  next
    case (Cons c fp)
    have r: "round_to_double (decimal_value (takeWhile is_digit t @ fp)) (10 ^ length fp) = Finite m e"
      and fp: "list_all is_digit fp"
      using unfolded unfolding Cons list.case by (simp_all split: if_splits)
    have "0 \<le> decimal_value (takeWhile is_digit t @ fp)"
      using ip fp by (intro decimal_value_nonneg) simp
    moreover have "(0::int) < 10 ^ length fp"
      by simp
    ultimately show ?thesis
      using round_to_double_nonneg r by blast
  qed
qed

lemma int_of_float_nonneg:
  assumes "int_of_float x = Inr n" "\<And>m e. x = Finite m e \<Longrightarrow> 0 \<le> m"
  shows "0 \<le> n"
proof (cases x)
  case (Finite m e)
  then have "0 \<le> m * 2 ^ nat e"
    using assms(2) by simp
  then have "0 \<le> (m * 2 ^ nat e) div 2 ^ nat (- e)"
    by (simp add: pos_imp_zdiv_nonneg_iff)
  then show ?thesis
    using assms(1) Finite by (simp add: int_of_float_def)
next
  case Infinity
  then show ?thesis using assms(1) by (simp add: int_of_float_def)
qed

lemma float_mul_nonneg:
  assumes "0 \<le> c" "\<And>m e. x = Finite m e \<Longrightarrow> 0 \<le> m" "float_mul x c = Finite m' e'"
  shows "0 \<le> m'"
proof (cases x)
  case (Finite m e)
  then have "round_to_double (m * c * 2 ^ nat e) (2 ^ nat (- e)) = Finite m' e'"
    using assms(3) by (simp add: float_mul_def)
  moreover have "0 \<le> m * c * 2 ^ nat e"
    using assms(1,2) Finite by simp
  moreover have "(0::int) < 2 ^ nat (- e)"
    by simp
  ultimately show ?thesis
    using round_to_double_nonneg by blast
next
  case Infinity
  then show ?thesis using assms(3) by (simp add: float_mul_def)
qed

lemma scaled_count_nonneg:
  assumes "0 \<le> c" "scaled_count s c = Inr n"
  shows "0 \<le> n"
proof (cases "float_of_num_str s")
  case None
  then show ?thesis using assms(2) by (simp add: scaled_count_def)
next
  case (Some x)
  then have i: "int_of_float (float_mul x c) = Inr n"
    using assms(2) by (simp add: scaled_count_def)
  have "0 \<le> m" if "x = Finite m e" for m e
    using float_of_num_str_nonneg Some that by blast
  then have "0 \<le> m'" if "float_mul x c = Finite m' e'" for m' e'
    using float_mul_nonneg [OF assms(1) _ that] by blast
  then show ?thesis
    using int_of_float_nonneg [OF i] by blast
qed

lemma plain_count_nonneg:
  assumes "(case float_of_num_str s of None \<Rightarrow> Inr 0 | Some x \<Rightarrow> int_of_float x) = Inr n"
  shows "0 \<le> n"
proof (cases "float_of_num_str s")
  case None
  then show ?thesis using assms by simp
next
  case (Some x)
  then have i: "int_of_float x = Inr n"
    using assms by simp
  have "0 \<le> m" if "x = Finite m e" for m e
    using float_of_num_str_nonneg Some that by blast
  then show ?thesis
    using int_of_float_nonneg [OF i] by blast
qed

lemma suffix_branches_nonneg:
  assumes "(if k then scaled_count s1 1000
            else if m then scaled_count s2 1000000
            else if b then scaled_count s3 1000000000
            else if t then scaled_count s4 1000000000000
            else (case float_of_num_str s5 of None \<Rightarrow> Inr 0 | Some x \<Rightarrow> int_of_float x)) = Inr n"
  shows "0 \<le> n"
proof -
  have "scaled_count s1 1000 = Inr n \<or> scaled_count s2 1000000 = Inr n \<or>
        scaled_count s3 1000000000 = Inr n \<or> scaled_count s4 1000000000000 = Inr n \<or>
        (case float_of_num_str s5 of None \<Rightarrow> Inr 0 | Some x \<Rightarrow> int_of_float x) = Inr n"
    using assms by (simp split: if_splits)
  then show ?thesis
    using scaled_count_nonneg [of 1000 s1 n] scaled_count_nonneg [of 1000000 s2 n]
      scaled_count_nonneg [of 1000000000 s3 n] scaled_count_nonneg [of 1000000000000 s4 n]
      plain_count_nonneg [of s5 n]
    by fastforce
qed

lemma extract_count_nonneg:
  assumes "extract_count_from_string text_to_parse = Inr n"
  shows "0 \<le> n"
proof (cases text_to_parse)
  case None
  then show ?thesis using assms by (simp add: extract_count_from_string_def)
next
  case (Some str)
  show ?thesis
  proof (cases "str = [] \<or> count_match str = None")
    case True
    then show ?thesis
      using assms Some by (auto simp: extract_count_from_string_def split: if_splits)
  next
    case False
    then obtain g where g: "count_match str = Some g" and ne: "str \<noteq> []"
      by auto
    have "extract_count_from_string (Some str) = Inr n"
      using assms Some by simp
    then show ?thesis
      unfolding extract_count_from_string_def option.case g Let_def
      using ne by (simp only: if_False) (rule suffix_branches_nonneg)
  qed
qed

text \<open>
  C10. The claim is that the function never raises and never returns a negative count.
  The second part holds (\<open>extract_count_nonneg\<close>). The first does not: a run of 309
  nines is a number above the largest binary64 value, \<open>float\<close> returns \<open>inf\<close>, \<open>int(inf)\<close>
  raises \<open>OverflowError\<close>, and the handler catches \<open>ValueError\<close> and \<open>AttributeError\<close>
  only.
\<close>

theorem extract_count_overflow:
  "extract_count_from_string (Some (replicate 309 (CHR ''9''))) = Inl OverflowError"
  by code_simp

section \<open>Properties of \<open>any_of_conditions\<close>\<close>

lemma any_of_from_first:
  "k < length cs \<Longrightarrow> (cs ! k) d = Located r \<Longrightarrow> (\<forall>j<k. \<forall>r'. (cs ! j) d \<noteq> Located r')
   \<Longrightarrow> any_of_conditions_from i cs d = (Some r, [i..<i + Suc k])"
proof (induction cs arbitrary: i k)
  case Nil
  then show ?case by simp
next
  case (Cons c cs)
  show ?case
  proof (cases k)
    case 0
    with Cons.prems show ?thesis by simp
  next
    case (Suc k')
    have miss: "\<forall>r'. c d \<noteq> Located r'"
      using Cons.prems(3) Suc by auto
    have rec: "any_of_conditions_from (Suc i) cs d = (Some r, [Suc i..<Suc i + Suc k'])"
    proof (rule Cons.IH)
      show "k' < length cs" using Cons.prems(1) Suc by simp
      show "(cs ! k') d = Located r" using Cons.prems(2) Suc by simp
      show "\<forall>j<k'. \<forall>r'. (cs ! j) d \<noteq> Located r'"
        using Cons.prems(3) Suc by auto
    qed
    have "[i..<i + Suc k] = i # [Suc i..<Suc i + Suc k']"
      using Suc by (subst upt_rec) simp
    with miss rec show ?thesis
      by (cases "c d") auto
  qed
qed

lemma any_of_from_none:
  "(\<forall>j<length cs. \<forall>r'. (cs ! j) d \<noteq> Located r')
   \<Longrightarrow> any_of_conditions_from i cs d = (None, [i..<i + length cs])"
proof (induction cs arbitrary: i)
  case Nil
  then show ?case by simp
next
  case (Cons c cs)
  have miss: "\<forall>r'. c d \<noteq> Located r'"
    using Cons.prems by auto
  have "\<forall>j<length cs. \<forall>r'. (cs ! j) d \<noteq> Located r'"
    using Cons.prems by auto
  then have rec: "any_of_conditions_from (Suc i) cs d = (None, [Suc i..<Suc i + length cs])"
    by (rule Cons.IH)
  have "[i..<i + length (c # cs)] = i # [Suc i..<Suc i + length cs]"
    by (subst upt_rec) simp
  with miss rec show ?case
    by (cases "c d") auto
qed

text \<open>
  C3. For every list of conditions and every state of the driver, \<open>any_of_conditions\<close>
  returns the result of the first condition of the list that returns a truthy value, and
  it has then invoked the conditions up to that one, each once and in order, and none
  after it. When no condition returns a truthy value (each returns a falsy value or
  raises), it has invoked every condition once and returns \<open>False\<close>; nothing is raised.
\<close>

theorem any_of_conditions_first_match:
  "(k < length conditions \<and> (conditions ! k) driver = Located r \<and>
      (\<forall>j<k. \<forall>r'. (conditions ! j) driver \<noteq> Located r')
    \<longrightarrow> any_of_conditions conditions driver = (Some r, [0..<Suc k])) \<and>
   ((\<forall>j<length conditions. \<forall>r'. (conditions ! j) driver \<noteq> Located r')
    \<longrightarrow> any_of_conditions conditions driver = (None, [0..<length conditions]))"
  unfolding any_of_conditions_def
  using any_of_from_first [of k conditions driver r 0] any_of_from_none [of conditions driver 0]
  by simp

theorem any_of_conditions_first_match_witness:
  "any_of_conditions [\<lambda>_. Raised, \<lambda>_. Located (2::nat), \<lambda>_. Located 3] () = (Some 2, [0, 1]) \<and>
   any_of_conditions [\<lambda>_. Falsy, \<lambda>_. (Raised :: nat cond_result)] () = (None, [0, 1])"
proof -
  have a: "any_of_conditions [\<lambda>_. Raised, \<lambda>_. Located (2::nat), \<lambda>_. Located 3] () = (Some 2, [0, 1])"
    using any_of_conditions_first_match
      [of 1 "[\<lambda>_. Raised, \<lambda>_. Located (2::nat), \<lambda>_. Located 3]" "()" 2]
    by simp
  have b: "any_of_conditions [\<lambda>_. Falsy, \<lambda>_. (Raised :: nat cond_result)] () = (None, [0, 1])"
    using any_of_conditions_first_match
      [of 0 "[\<lambda>_. Falsy, \<lambda>_. (Raised :: nat cond_result)]" "()" 0]
    by (simp add: less_Suc_eq)
  show ?thesis
    using a b by blast
qed

section \<open>Properties of \<open>parse_gab_datetime\<close>\<close>










section \<open>The dump of the dataset when a run ends\<close>

lemma rescraper_loop_appended:
  "rescraper_loop visits dataset =
     (case terminal_transition visits of
        DataFile \<Rightarrow> Finished (dataset @ appended_records visits)
      | InterruptDump \<Rightarrow> Interrupted (dataset @ appended_records visits)
      | ErrorDump \<Rightarrow> Failed (dataset @ appended_records visits))"
  by (induction visits dataset rule: rescraper_loop.induct) (simp_all split: dump_file.splits)

text \<open>
  What \<open>main\<close> of \<open>gab_past_post_rescraper.py\<close> writes. A run that ends while the driver is
  set up, before the \<open>try\<close>, writes nothing. A run that ends inside the \<open>try\<close> by an interrupt
  or by an error writes exactly one dump, to the interrupt or the error file, holding
  exactly the records appended so far. A run that completes writes the data file once
  when a record was appended, and nothing when the dataset is empty.
\<close>

lemma rescraper_dumps:
  "main_rescraper PhaseInterrupted startup visits quit = [] \<and>
   main_rescraper PhaseFailed startup visits quit = [] \<and>
   main_rescraper Passed PhaseInterrupted visits quit = [(InterruptDump, [])] \<and>
   main_rescraper Passed PhaseFailed visits quit = [(ErrorDump, [])] \<and>
   main_rescraper Passed Passed visits quit =
     (if run_end visits quit = DataFile \<and> appended_records visits = [] then []
      else [(run_end visits quit, appended_records visits)])"
proof -
  have "main_rescraper Passed Passed visits quit =
     (if run_end visits quit = DataFile \<and> appended_records visits = [] then []
      else [(run_end visits quit, appended_records visits)])"
    unfolding main_rescraper_def run_end_def rescraper_loop_appended [of visits "[]"]
    by (cases "terminal_transition visits"; cases quit) simp_all
  then show ?thesis
    by (simp add: main_rescraper_def)
qed

lemma rescraper_empty_run_without_dump:
  "main_rescraper Passed Passed ([] :: nat tab_visit list) Passed = []"
  by (simp add: main_rescraper_def)

lemma rescraper_setup_failure_without_dump:
  "main_rescraper PhaseFailed Passed [Opened (Details (Inr (Some (1::nat))))] Passed = []"
  by (simp add: main_rescraper_def)

text \<open>What \<open>main\<close> of \<open>gab_scraper_14.py\<close> writes: the data file, when the run completes with
  a record, and nothing on any other way out.\<close>

lemma scraper_dumps:
  "main_scraper target startup explore_loaded visits quit =
     (case scraper_loop target visits [] of
        Finished dataset \<Rightarrow>
          if startup = Passed \<and> explore_loaded \<and> visits \<noteq> [] \<and> quit = Passed \<and> dataset \<noteq> []
          then [(DataFile, dataset)] else []
      | Interrupted dataset \<Rightarrow> []
      | Failed dataset \<Rightarrow> [])"
  unfolding main_scraper_def
  by (cases startup; cases quit; cases "scraper_loop target visits []") simp_all

text \<open>
  C1. The claim is that every way a run ends is followed by exactly one dump that holds
  the records appended so far, so that an interrupt after K records leaves a file with
  those K records. \<open>main\<close> of \<open>gab_scraper_14.py\<close> has no handler around its loop: interrupted
  during the second visit, after one record was appended, it writes no file and the
  record is lost. \<open>main\<close> of \<open>gab_past_post_rescraper.py\<close> dumps the record on the same
  visits.
\<close>

theorem scraper_interrupt_loses_records:
  "main_scraper 10 Passed True [Details (Inr (Some (1::nat))), KeyboardInterrupt] Passed = [] \<and>
   main_rescraper Passed Passed
     [Opened (Details (Inr (Some (1::nat)))), Opened KeyboardInterrupt] Passed
     = [(InterruptDump, [1])]"
  by (simp add: main_scraper_def main_rescraper_def)

section \<open>The target count\<close>

lemma rescraper_loop_replicate:
  "rescraper_loop (replicate n (Opened (Details (Inr (Some r))))) dataset
     = Finished (dataset @ replicate n r)"
proof (induction n arbitrary: dataset)
  case 0
  then show ?case by simp
next
  case (Suc n)
  have "rescraper_loop (replicate (Suc n) (Opened (Details (Inr (Some r))))) dataset
      = rescraper_loop (replicate n (Opened (Details (Inr (Some r))))) (dataset @ [r])"
    by simp
  also have "\<dots> = Finished ((dataset @ [r]) @ replicate n r)"
    by (rule Suc.IH)
  finally show ?case by (simp add: replicate_app_Cons_same)
qed

text \<open>
  C2. The claim is that the dataset never holds more records than the configured target.
  The loops of \<open>gab_scraper_14.py\<close> and of the 4chan scraper check the target before each
  visit (the lemmas below). \<open>main\<close> of \<open>gab_past_post_rescraper.py\<close> never reads
  \<open>POSTS_TO_SCRAPE\<close>: on a list of 1001 URLs that all yield a record it appends and writes
  1001 records, against a target of 1000.
\<close>

theorem rescraper_exceeds_target:
  "main_rescraper Passed Passed (replicate 1001 (Opened (Details (Inr (Some ()))))) Passed
     = [(DataFile, replicate 1001 ())] \<and>
   POSTS_TO_SCRAPE < int (length (replicate 1001 ()))"
  by (simp add: main_rescraper_def rescraper_loop_replicate POSTS_TO_SCRAPE_def)

lemma scraper_loop_bound:
  "0 \<le> target \<Longrightarrow> int (length dataset) \<le> target
   \<Longrightarrow> int (length (loop_data (scraper_loop target visits dataset))) \<le> target"
proof (induction visits arbitrary: dataset)
  case Nil
  then show ?case by (simp add: loop_data_def)
next
  case (Cons v vs)
  show ?case
  proof (cases "target \<le> int (length dataset)")
    case True
    then show ?thesis using Cons.prems by (simp add: loop_data_def)
  next
    case False
    then have "int (length (dataset @ [r])) \<le> target" for r
      by simp
    then show ?thesis
      using False Cons by (auto simp: loop_data_def split: visit.splits sum.splits option.splits)
  qed
qed

lemma thread_loop_bound:
  "0 \<le> target \<Longrightarrow> int (length dataset) \<le> target
   \<Longrightarrow> int (length (loop_data (thread_loop target visits dataset))) \<le> target"
proof (induction visits arbitrary: dataset)
  case Nil
  then show ?case by (simp add: loop_data_def)
next
  case (Cons v vs)
  show ?case
  proof (cases "target \<le> int (length dataset)")
    case True
    then show ?thesis using Cons.prems by (simp add: loop_data_def)
  next
    case False
    then have "int (length (dataset @ [r])) \<le> target" for r
      by simp
    then show ?thesis
      using False Cons by (auto simp: loop_data_def split: visit.splits sum.splits option.splits)
  qed
qed

lemma page_loop_bound:
  "0 \<le> target \<Longrightarrow> int (length dataset) \<le> target
   \<Longrightarrow> int (length (loop_data (page_loop target pages dataset))) \<le> target"
proof (induction pages arbitrary: dataset)
  case Nil
  then show ?case by (simp add: loop_data_def)
next
  case (Cons pg pgs)
  show ?case
  proof (cases pg)
    case (Archive vs)
    have t: "int (length (loop_data (thread_loop target vs dataset))) \<le> target"
      using Cons.prems by (rule thread_loop_bound)
    show ?thesis
    proof (cases "thread_loop target vs dataset")
      case (Finished d)
      then have "int (length d) \<le> target"
        using t by (simp add: loop_data_def)
      then have "int (length (loop_data (page_loop target pgs d))) \<le> target"
        using Cons.IH Cons.prems(1) by blast
      then show ?thesis
        using Archive Finished Cons.prems by (simp add: loop_data_def)
    next
      case (Interrupted d)
      then show ?thesis
        using Archive t Cons.prems by (simp add: loop_data_def)
    next
      case (Failed d)
      then show ?thesis
        using Archive t Cons.prems by (simp add: loop_data_def)
    qed
  next
    case ArchiveInterrupt
    then show ?thesis using Cons.prems by (simp add: loop_data_def)
  next
    case ArchiveError
    then show ?thesis using Cons.prems by (simp add: loop_data_def)
  qed
qed

section \<open>The example environments, evaluated\<close>

lemma example_images:
  "scrape_image_urls (Inr example_markup) = [''https://m3.gab.com/media_attachments/files/1/a.jpg'']"
  by code_simp

lemma example_timestamp:
  "scrape_timestamp source_config stub_lib example_page
     = Some (''Mon Jul 07 2025 07:59:42 GMT-0700 (Pacific Daylight Time)'',
             ''2025-07-07T07:59:42-07:00'')"
  by code_simp

lemma example_counts: "scrape_interactions example_page = Some (257, 1200, 0, 3000000)"
  by code_simp

lemma example_replies:
  "scrape_replies (reply_elements example_page)
     = [\<lparr>reply_id = ''c1'',
          reply_image_urls = [''https://m3.gab.com/media_attachments/files/1/a.jpg'']\<rparr>]"
  by code_simp

lemma example_post_id: "post_id_of_url example_url = ''114812345678''"
  by code_simp

lemma example_details:
  "get_post_details source_config stub_lib example_url example_page = Inr (Some example_post)"
proof -
  have "outer_html example_page = Inr example_markup" "scrolled_comments example_page"
    "\<not> isl (load example_page)" "\<not> isl (main_post_element example_page)"
    by (simp_all add: example_page_def)
  then show ?thesis
    unfolding get_post_details_def example_timestamp example_counts example_replies
    by (simp add: example_images example_post_id example_post_def source_config_def)
qed

lemma example_counts14: "scrape_interactions14 example_page14 = Some (257, 1200, 0, 0)"
  by code_simp

lemma example_replies14:
  "scrape_replies14 (reply_elements14 example_page14)
     = [\<lparr>reply_id14 = ''r9'', reply_likes14 = 3\<rparr>]"
  by code_simp

lemma example_details14:
  "get_post_details14 example_url example_page14 = Some example_post14"
proof -
  have "outer_html14 example_page14 = Inr example_markup"
    "timestamp_elem14 example_page14 = Inl TimeoutException"
    "\<not> isl (load14 example_page14)" "\<not> isl (main_post_element14 example_page14)"
    by (simp_all add: example_page14_def)
  then show ?thesis
    unfolding get_post_details14_def example_counts14 example_replies14
    by (simp add: example_images example_post_id example_post14_def scrape_timestamp14_def)
qed

lemma example_thread_fixed:
  "fix_image_urls [Some ''https://i.4pcdn.org/pol/1s.jpg'', Some ''https://i.4pcdn.org/pol/1s.jpg'']
     = Inr [''https://i.4pcdn.org/pol/1.jpg'', ''https://i.4pcdn.org/pol/1.jpg'']"
  "fix_image_urls [Some ''https://i.4pcdn.org/pol/2s.jpg'', Some ''https://i.4pcdn.org/pol/2s.jpg'']
     = Inr [''https://i.4pcdn.org/pol/2.jpg'', ''https://i.4pcdn.org/pol/2.jpg'']"
  by code_simp+

lemma example_thread_scraped:
  "scrape_pol_thread example_thread_url (example_thread aid)
     = Some \<lparr>op_post_id = Some aid, op_post_url = example_thread_url,
             op_image_urls = [''https://i.4pcdn.org/pol/1.jpg'', ''https://i.4pcdn.org/pol/1.jpg''],
             op_reply_count = 1,
             op_replies =
               [\<lparr>r_reply_id = Some ''r1'',
                 r_image_urls = [''https://i.4pcdn.org/pol/2.jpg'', ''https://i.4pcdn.org/pol/2.jpg'']\<rparr>]\<rparr>"
  using example_thread_fixed
  by (simp add: scrape_pol_thread_def example_thread_def or_empty_def scrape_reply_article_def)

section \<open>Identifier of a record\<close>

lemma get_post_details_fields:
  assumes "get_post_details cfg lib url pg = Inr (Some p)"
  shows "post_id p = post_id_of_url url" "post_url p = url"
    "image_urls p = scrape_image_urls (outer_html pg)"
    "replies p = scrape_replies (reply_elements pg)"
  using assms
  by (auto simp: get_post_details_def split: if_splits option.splits sum.splits)

lemma get_post_details14_fields:
  assumes "get_post_details14 url pg = Some q"
  shows "post_id14 q = post_id_of_url url" "post_url14 q = url"
    "image_urls14 q = scrape_image_urls (outer_html14 pg)"
  using assms
  by (auto simp: get_post_details14_def split: if_splits option.splits)

lemma scrape_pol_thread_fields:
  assumes "scrape_pol_thread thread_url tp = Some d"
  shows "op_post_url d = thread_url" "article_id tp = Inr (op_post_id d)"
  using assms
  by (auto simp: scrape_pol_thread_def or_empty_def split: sum.splits)

text \<open>
  C7, as amended. A record of either Gab extractor (\<open>get_post_details\<close> of
  \<open>gab_past_post_rescraper.py\<close> and of \<open>gab_scraper_14.py\<close>) carries the identifier computed
  from its URL by \<open>post_id_of_url\<close>, a pure function of the URL, whatever the page shows:
  two extractions of one URL give the same identifier. A record of the 4chan extractor
  carries the URL it was given as \<open>post_url\<close>, and its \<open>post_id\<close> is the \<open>id\<close> attribute of
  the thread's article element.
\<close>

theorem identifier_sources:
  "(get_post_details cfg lib url pg = Inr (Some p) \<longrightarrow>
      post_id p = post_id_of_url url \<and> post_url p = url) \<and>
   (get_post_details cfg lib url pg = Inr (Some p) \<and>
    get_post_details cfg' lib' url pg' = Inr (Some p') \<longrightarrow>
      post_id p = post_id p') \<and>
   (get_post_details14 url pg14 = Some q \<longrightarrow>
      post_id14 q = post_id_of_url url \<and> post_url14 q = url) \<and>
   (get_post_details14 url pg14 = Some q \<and> get_post_details14 url pg14' = Some q' \<longrightarrow>
      post_id14 q = post_id14 q') \<and>
   (scrape_pol_thread thread_url tp = Some d \<longrightarrow>
      op_post_url d = thread_url \<and> article_id tp = Inr (op_post_id d))"
  using get_post_details_fields(1,2) [of cfg lib url pg p]
    get_post_details_fields(1) [of cfg' lib' url pg' p']
    get_post_details14_fields(1,2) [of url pg14 q]
    get_post_details14_fields(1) [of url pg14' q']
    scrape_pol_thread_fields [of thread_url tp d]
  by simp

theorem identifier_sources_witness:
  "get_post_details source_config stub_lib example_url example_page = Inr (Some example_post) \<and>
   post_id example_post = ''114812345678'' \<and>
   post_url example_post = example_url \<and>
   get_post_details14 example_url example_page14 = Some example_post14 \<and>
   post_id14 example_post14 = ''114812345678'' \<and>
   post_url14 example_post14 = example_url \<and>
   (\<exists>d. scrape_pol_thread example_thread_url (example_thread ''7'') = Some d \<and>
        op_post_url d = example_thread_url \<and> op_post_id d = Some ''7'')"
proof -
  obtain d where d: "scrape_pol_thread example_thread_url (example_thread ''7'') = Some d"
    using example_thread_scraped [of "''7''"] by auto
  have "article_id (example_thread ''7'') = Inr (Some ''7'')"
    by (simp add: example_thread_def)
  then show ?thesis
    using identifier_sources
      [of source_config stub_lib example_url example_page example_post
          source_config stub_lib example_page example_post
          example_page14 example_post14 example_page14 example_post14
          example_thread_url "example_thread ''7''" d]
      example_details example_details14 example_post_id d
    by simp
qed

text \<open>The claim as stated fails for the 4chan extractor: one URL, two pages, two
  identifiers.\<close>

theorem identifier_from_markup_counterexample:
  "map_option op_post_id (scrape_pol_thread example_thread_url (example_thread ''1''))
     = Some (Some ''1'') \<and>
   map_option op_post_id (scrape_pol_thread example_thread_url (example_thread ''2''))
     = Some (Some ''2'')"
  using example_thread_scraped [of "''1''"] example_thread_scraped [of "''2''"] by simp

section \<open>Disqualification on the timestamp\<close>

lemma scrape_timestamp_unresolved:
  assumes "isl (timestamp_elem pg) \<or>
     (\<exists>elem. timestamp_elem pg = Inr elem \<and>
        parse_gab_datetime (lib_strptime lib) (lib_isoformat lib) (Some (raw_timestamp_of elem)) = None)"
  shows "scrape_timestamp cfg lib pg = None"
  using assms by (auto simp: scrape_timestamp_def split: sum.splits)

text \<open>
  C8. In the Gab rescraper, when the timestamp element is not resolved (the wait raises)
  or \<open>parse_gab_datetime\<close> returns \<open>None\<close> for the raw timestamp, \<open>get_post_details\<close>
  returns \<open>None\<close>, and the loop of \<open>main\<close> goes on to the next URL with the dataset
  unchanged.
\<close>

theorem unparsed_timestamp_disqualifies:
  "isl (timestamp_elem pg) \<or>
     (\<exists>elem. timestamp_elem pg = Inr elem \<and>
        parse_gab_datetime (lib_strptime lib) (lib_isoformat lib) (Some (raw_timestamp_of elem)) = None)
   \<Longrightarrow> get_post_details cfg lib url pg = Inr None \<and>
       rescraper_loop (Opened (Details (get_post_details cfg lib url pg)) # visits) dataset
         = rescraper_loop visits dataset"
proof -
  assume "isl (timestamp_elem pg) \<or>
     (\<exists>elem. timestamp_elem pg = Inr elem \<and>
        parse_gab_datetime (lib_strptime lib) (lib_isoformat lib) (Some (raw_timestamp_of elem)) = None)"
  then have "scrape_timestamp cfg lib pg = None"
    by (rule scrape_timestamp_unresolved)
  then have "get_post_details cfg lib url pg = Inr None"
    by (simp add: get_post_details_def)
  then show ?thesis by simp
qed

theorem unparsed_timestamp_disqualifies_witness:
  "get_post_details source_config stub_lib example_url example_page_without_time = Inr None \<and>
   get_post_details source_config stub_lib example_url example_page_bad_time = Inr None \<and>
   main_rescraper Passed Passed
     [Opened (Details (get_post_details source_config stub_lib example_url example_page_bad_time)),
      Opened (Details (get_post_details source_config stub_lib example_url example_page))]
     Passed
     = [(DataFile, [example_post])]"
proof -
  have a: "isl (timestamp_elem example_page_without_time)"
    by (simp add: example_page_without_time_def)
  have "raw_timestamp_of (None, '' 2h ago '') = ''2h ago''"
    by code_simp
  moreover have "parse_gab_datetime stub_strptime stub_isoformat (Some ''2h ago'') = None"
    by code_simp
  ultimately have b: "\<exists>elem. timestamp_elem example_page_bad_time = Inr elem \<and>
      parse_gab_datetime (lib_strptime stub_lib) (lib_isoformat stub_lib)
        (Some (raw_timestamp_of elem)) = None"
    by (simp add: example_page_bad_time_def stub_lib_def)
  show ?thesis
    using unparsed_timestamp_disqualifies
        [of example_page_without_time stub_lib source_config example_url "[]" "[]"]
      unparsed_timestamp_disqualifies
        [of example_page_bad_time stub_lib source_config example_url
            "[Opened (Details (get_post_details source_config stub_lib example_url example_page))]" "[]"]
      a b example_details
    by (simp add: main_rescraper_def)
qed

section \<open>Media URLs\<close>

lemma count_list_distinct: "distinct xs \<Longrightarrow> x \<in> set xs \<Longrightarrow> count_list xs x = 1"
  by (induction xs) auto

lemma scrape_image_urls_distinct: "distinct (scrape_image_urls html)"
  by (simp add: scrape_image_urls_def list_of_set_def split: sum.splits)

lemma scrape_image_urls_once:
  "html = Inr markup \<Longrightarrow> u \<in> set (img_src_finditer markup)
   \<Longrightarrow> count_list (scrape_image_urls html) u = 1"
  by (simp add: scrape_image_urls_def list_of_set_def count_list_distinct)

lemma scrape_reply_once:
  "reply_outer_html elem = Inr markup \<Longrightarrow> u \<in> set (img_src_finditer markup)
   \<Longrightarrow> count_list (reply_image_urls (scrape_reply elem)) u = 1"
  by (simp add: scrape_reply_def list_of_set_def count_list_distinct)

lemma scrape_reply_distinct: "distinct (reply_image_urls (scrape_reply elem))"
  by (simp add: scrape_reply_def list_of_set_def split: sum.splits)

lemma unique_reply_elements_subset:
  "unique_reply_elements elems seen = Inr us \<Longrightarrow> set us \<subseteq> set elems"
proof (induction elems arbitrary: seen us)
  case Nil
  then show ?case by simp
next
  case (Cons elem elems)
  then show ?case
    by (fastforce split: sum.splits option.splits if_splits)
qed

lemma scrape_replies_from_elements:
  assumes "r \<in> set (scrape_replies found)"
  shows "\<exists>elems elem. found = Inr elems \<and> elem \<in> set elems \<and> r = scrape_reply elem"
proof (cases found)
  case (Inl e)
  then show ?thesis
    using assms by (simp add: scrape_replies_def)
next
  case found: (Inr elems)
  show ?thesis
  proof (cases "unique_reply_elements elems []")
    case (Inl e)
    then show ?thesis
      using assms found by (simp add: scrape_replies_def)
  next
    case (Inr us)
    then have "r \<in> set (map scrape_reply us)"
      using assms found by (simp add: scrape_replies_def)
    then obtain elem where "elem \<in> set us" "r = scrape_reply elem"
      by auto
    then show ?thesis
      using found unique_reply_elements_subset [OF Inr] by blast
  qed
qed

lemma fix_image_urls_length: "fix_image_urls srcs = Inr urls \<Longrightarrow> length urls = length srcs"
proof (induction srcs arbitrary: urls)
  case Nil
  then show ?case by simp
next
  case (Cons src srcs)
  then show ?case
    by (cases src) (auto split: sum.splits)
qed

lemma scrape_pol_thread_images:
  assumes "scrape_pol_thread thread_url tp = Some d"
  shows "thread_img_srcs tp = Inr srcs \<Longrightarrow> fix_image_urls srcs = Inr (op_image_urls d)"
    and "reply_articles tp = Inr ras \<Longrightarrow> scrape_reply_articles ras = Some (op_replies d)"
  using assms
  by (auto simp: scrape_pol_thread_def or_empty_def split: sum.splits)

lemma scrape_reply_articles_images:
  "scrape_reply_articles ras = Some rs
   \<Longrightarrow> list_all2 (\<lambda>ra r. \<exists>srcs. ra_img_srcs ra = Inr srcs \<and>
          fix_image_urls srcs = Inr (r_image_urls r) \<and>
          length (r_image_urls r) = length srcs) ras rs"
proof (induction ras arbitrary: rs)
  case Nil
  then show ?case by simp
next
  case (Cons ra ras)
  then obtain r rs' where r: "scrape_reply_article ra = Some r"
    and rs': "scrape_reply_articles ras = Some rs'" and rs: "rs = r # rs'"
    by (auto split: option.splits)
  obtain srcs where "ra_img_srcs ra = Inr srcs" "fix_image_urls srcs = Inr (r_image_urls r)"
    using r by (auto simp: scrape_reply_article_def or_empty_def split: sum.splits)
  then show ?case
    using Cons.IH [OF rs'] rs fix_image_urls_length by fastforce
qed

text \<open>
  C9, as amended. A record of either Gab extractor has a list of image URLs without
  duplicates: a URL that the image pattern finds in the markup of the post, however
  often, is in the list exactly once. The same holds for each reply of a record of the
  Gab rescraper, with the markup of the reply's element (a reply of \<open>gab_scraper_14.py\<close>
  has no list of images). The 4chan extractor makes one entry for each image element,
  for the thread and for each of its replies: the list is \<open>fix_image_urls\<close> of the \<open>src\<close>
  attributes, as long as the list of elements, and not deduplicated.
\<close>

theorem image_urls_duplicates:
  "(get_post_details cfg lib url pg = Inr (Some p) \<longrightarrow>
     distinct (image_urls p) \<and>
     (\<forall>html u. outer_html pg = Inr html \<and> u \<in> set (img_src_finditer html)
        \<longrightarrow> count_list (image_urls p) u = 1) \<and>
     (\<forall>r \<in> set (replies p).
        distinct (reply_image_urls r) \<and>
        (\<exists>elems elem. reply_elements pg = Inr elems \<and> elem \<in> set elems \<and> r = scrape_reply elem \<and>
           (\<forall>html u. reply_outer_html elem = Inr html \<and> u \<in> set (img_src_finditer html)
              \<longrightarrow> count_list (reply_image_urls r) u = 1)))) \<and>
   (get_post_details14 url pg14 = Some q \<longrightarrow>
     distinct (image_urls14 q) \<and>
     (\<forall>html u. outer_html14 pg14 = Inr html \<and> u \<in> set (img_src_finditer html)
        \<longrightarrow> count_list (image_urls14 q) u = 1)) \<and>
   (scrape_pol_thread thread_url tp = Some d \<longrightarrow>
     (\<forall>srcs. thread_img_srcs tp = Inr srcs \<longrightarrow>
        fix_image_urls srcs = Inr (op_image_urls d) \<and> length (op_image_urls d) = length srcs) \<and>
     (\<forall>ras. reply_articles tp = Inr ras \<longrightarrow>
        list_all2 (\<lambda>ra r. \<exists>srcs. ra_img_srcs ra = Inr srcs \<and>
          fix_image_urls srcs = Inr (r_image_urls r) \<and>
          length (r_image_urls r) = length srcs) ras (op_replies d)))"
proof (intro conjI impI)
  assume g: "get_post_details cfg lib url pg = Inr (Some p)"
  have i: "image_urls p = scrape_image_urls (outer_html pg)"
    and r: "replies p = scrape_replies (reply_elements pg)"
    using get_post_details_fields(3,4) [OF g] by simp_all
  show "distinct (image_urls p)"
    using i scrape_image_urls_distinct by simp
  show "\<forall>html u. outer_html pg = Inr html \<and> u \<in> set (img_src_finditer html)
        \<longrightarrow> count_list (image_urls p) u = 1"
    using i scrape_image_urls_once by simp
  show "\<forall>r \<in> set (replies p).
        distinct (reply_image_urls r) \<and>
        (\<exists>elems elem. reply_elements pg = Inr elems \<and> elem \<in> set elems \<and> r = scrape_reply elem \<and>
           (\<forall>html u. reply_outer_html elem = Inr html \<and> u \<in> set (img_src_finditer html)
              \<longrightarrow> count_list (reply_image_urls r) u = 1))"
  proof
    fix x
    assume "x \<in> set (replies p)"
    then obtain elems elem where e: "reply_elements pg = Inr elems" "elem \<in> set elems"
      "x = scrape_reply elem"
      using r scrape_replies_from_elements by metis
    show "distinct (reply_image_urls x) \<and>
        (\<exists>elems elem. reply_elements pg = Inr elems \<and> elem \<in> set elems \<and> x = scrape_reply elem \<and>
           (\<forall>html u. reply_outer_html elem = Inr html \<and> u \<in> set (img_src_finditer html)
              \<longrightarrow> count_list (reply_image_urls x) u = 1))"
      using e scrape_reply_distinct scrape_reply_once by blast
  qed
next
  assume g: "get_post_details14 url pg14 = Some q"
  have i: "image_urls14 q = scrape_image_urls (outer_html14 pg14)"
    using get_post_details14_fields(3) [OF g] .
  show "distinct (image_urls14 q)"
    using i scrape_image_urls_distinct by simp
  show "\<forall>html u. outer_html14 pg14 = Inr html \<and> u \<in> set (img_src_finditer html)
        \<longrightarrow> count_list (image_urls14 q) u = 1"
    using i scrape_image_urls_once by simp
next
  assume s: "scrape_pol_thread thread_url tp = Some d"
  show "\<forall>srcs. thread_img_srcs tp = Inr srcs \<longrightarrow>
        fix_image_urls srcs = Inr (op_image_urls d) \<and> length (op_image_urls d) = length srcs"
    using scrape_pol_thread_images(1) [OF s] fix_image_urls_length by blast
  show "\<forall>ras. reply_articles tp = Inr ras \<longrightarrow>
        list_all2 (\<lambda>ra r. \<exists>srcs. ra_img_srcs ra = Inr srcs \<and>
          fix_image_urls srcs = Inr (r_image_urls r) \<and>
          length (r_image_urls r) = length srcs) ras (op_replies d)"
    using scrape_pol_thread_images(2) [OF s] scrape_reply_articles_images by blast
qed

theorem image_urls_duplicates_witness:
  "get_post_details source_config stub_lib example_url example_page = Inr (Some example_post) \<and>
   img_src_finditer example_markup
     = [''https://m3.gab.com/media_attachments/files/1/a.jpg'',
        ''https://m3.gab.com/media_attachments/files/1/a.jpg''] \<and>
   count_list (image_urls example_post) ''https://m3.gab.com/media_attachments/files/1/a.jpg'' = 1 \<and>
   distinct (image_urls example_post) \<and>
   map reply_image_urls (replies example_post)
     = [[''https://m3.gab.com/media_attachments/files/1/a.jpg'']] \<and>
   get_post_details14 example_url example_page14 = Some example_post14 \<and>
   count_list (image_urls14 example_post14) ''https://m3.gab.com/media_attachments/files/1/a.jpg'' = 1 \<and>
   distinct (image_urls14 example_post14) \<and>
   (\<exists>d. scrape_pol_thread example_thread_url (example_thread ''1'') = Some d \<and>
        length (op_image_urls d) = 2 \<and> map (length \<circ> r_image_urls) (op_replies d) = [2])"
proof -
  have f: "img_src_finditer example_markup
     = [''https://m3.gab.com/media_attachments/files/1/a.jpg'',
        ''https://m3.gab.com/media_attachments/files/1/a.jpg'']"
    by code_simp
  have o: "outer_html example_page = Inr example_markup"
    "outer_html14 example_page14 = Inr example_markup"
    by (simp_all add: example_page_def example_page14_def)
  have r: "map reply_image_urls (replies example_post)
     = [[''https://m3.gab.com/media_attachments/files/1/a.jpg'']]"
    by (simp add: example_post_def)
  obtain d where d: "scrape_pol_thread example_thread_url (example_thread ''1'') = Some d"
    and l: "map (length \<circ> r_image_urls) (op_replies d) = [2]"
    using example_thread_scraped [of "''1''"] by auto
  have t: "thread_img_srcs (example_thread ''1'')
      = Inr [Some ''https://i.4pcdn.org/pol/1s.jpg'', Some ''https://i.4pcdn.org/pol/1s.jpg'']"
    by (simp add: example_thread_def)
  have "distinct (image_urls example_post) \<and>
     count_list (image_urls example_post) ''https://m3.gab.com/media_attachments/files/1/a.jpg'' = 1 \<and>
     distinct (image_urls14 example_post14) \<and>
     count_list (image_urls14 example_post14) ''https://m3.gab.com/media_attachments/files/1/a.jpg'' = 1 \<and>
     length (op_image_urls d) = 2"
    using image_urls_duplicates
        [where cfg = source_config and lib = stub_lib and url = example_url and pg = example_page
           and p = example_post and ?pg14.0 = example_page14 and q = example_post14
           and thread_url = example_thread_url and tp = "example_thread ''1''" and d = d]
      example_details example_details14 f o d t
    by simp
  then show ?thesis
    using example_details example_details14 f r d l by simp
qed

text \<open>The claim as stated fails for the 4chan extractor: a thread whose two image elements
  name the same thumbnail gets the same URL twice, and so does a reply.\<close>

theorem thread_image_urls_counterexample:
  "map_option op_image_urls (scrape_pol_thread example_thread_url (example_thread ''1''))
     = Some [''https://i.4pcdn.org/pol/1.jpg'', ''https://i.4pcdn.org/pol/1.jpg''] \<and>
   map_option (map r_image_urls \<circ> op_replies)
       (scrape_pol_thread example_thread_url (example_thread ''1''))
     = Some [[''https://i.4pcdn.org/pol/2.jpg'', ''https://i.4pcdn.org/pol/2.jpg'']]"
  using example_thread_scraped [of "''1''"] by simp

end
